theory Spec2Isabelle
  imports Complex_Main "HOL-Library.Char_ord" "HOL-Library.List_Lexorder" "HOL-Library.AList"
begin

section \<open>Python strings\<close>

text \<open>
  Strings are lists of bytes. The string methods the pages call are modelled on the
  ASCII range: \<open>str.lower\<close> and \<open>str.title\<close> change the letters A-Z / a-z only, and
  \<open>str.strip\<close> / \<open>str.split\<close> treat the ASCII white space of \<open>str.isspace\<close>
  (codes 9-13 and 28-32) as white space. Bytes above 127 are left alone.
\<close>

definition is_space :: "char \<Rightarrow> bool" where
  "is_space c = (let n = (of_char c :: nat) in (9 \<le> n \<and> n \<le> 13) \<or> (28 \<le> n \<and> n \<le> 32))"

definition is_alpha :: "char \<Rightarrow> bool" where
  "is_alpha c = (let n = (of_char c :: nat) in (65 \<le> n \<and> n \<le> 90) \<or> (97 \<le> n \<and> n \<le> 122))"

definition lower_char :: "char \<Rightarrow> char" where
  "lower_char c = (let n = (of_char c :: nat) in if 65 \<le> n \<and> n \<le> 90 then char_of (n + 32) else c)"

definition upper_char :: "char \<Rightarrow> char" where
  "upper_char c = (let n = (of_char c :: nat) in if 97 \<le> n \<and> n \<le> 122 then char_of (n - 32) else c)"

text \<open>\<open>s.lower()\<close>\<close>

definition py_lower :: "string \<Rightarrow> string" where
  "py_lower s = map lower_char s"

text \<open>\<open>s.title()\<close>: a letter that follows a letter is lowered, any other letter is raised.\<close>

fun title_scan :: "bool \<Rightarrow> string \<Rightarrow> string" where
  "title_scan prev [] = []"
| "title_scan prev (c # cs) =
     (if prev then lower_char c else upper_char c) # title_scan (is_alpha c) cs"

definition py_title :: "string \<Rightarrow> string" where
  "py_title s = title_scan False s"

text \<open>\<open>s.strip()\<close>\<close>

definition py_strip :: "string \<Rightarrow> string" where
  "py_strip s = rev (dropWhile is_space (rev (dropWhile is_space s)))"

text \<open>A string that \<open>strip\<close> leaves alone: empty, or with no space at either end.\<close>

definition stripped :: "string \<Rightarrow> bool" where
  "stripped s = (s = [] \<or> (\<not> is_space (hd s) \<and> \<not> is_space (last s)))"

text \<open>\<open>s.split()\<close>: the maximal runs of non-space characters.\<close>

fun split_scan :: "string \<Rightarrow> string \<Rightarrow> string list" where
  "split_scan cur [] = (if cur = [] then [] else [cur])"
| "split_scan cur (c # cs) =
     (if is_space c then (if cur = [] then split_scan [] cs else cur # split_scan [] cs)
      else split_scan (cur @ [c]) cs)"

definition py_split :: "string \<Rightarrow> string list" where
  "py_split s = split_scan [] s"

text \<open>\<open>s.replace(a, b)\<close> for one-character \<open>a\<close> and \<open>b\<close>.\<close>

definition py_replace_char :: "char \<Rightarrow> char \<Rightarrow> string \<Rightarrow> string" where
  "py_replace_char a b s = map (\<lambda>c. if c = a then b else c) s"

text \<open>\<open>s.rsplit(sep, 1)\<close>: two parts around the last separator, or the string alone.\<close>

definition py_rsplit1 :: "char \<Rightarrow> string \<Rightarrow> string list" where
  "py_rsplit1 sep s =
     (if sep \<in> set s
      then [rev (tl (dropWhile (\<lambda>c. c \<noteq> sep) (rev s))), rev (takeWhile (\<lambda>c. c \<noteq> sep) (rev s))]
      else [s])"

text \<open>\<open>file.endswith(".npy")\<close> and \<open>file.replace(".npy", "")\<close>\<close>

definition py_endswith :: "string \<Rightarrow> string \<Rightarrow> bool" where
  "py_endswith s suf = (length suf \<le> length s \<and> drop (length s - length suf) s = suf)"

fun remove_npy :: "string \<Rightarrow> string" where
  "remove_npy [] = []"
| "remove_npy (c # cs) =
     (if take 4 (c # cs) = ''.npy'' then remove_npy (drop 3 cs) else c # remove_npy cs)"

datatype py_error = ValueError | IndexError | NameError

section \<open>The relational store\<close>

text \<open>
  Table \<open>attendance(id, full_name, reg_no, date, time, status)\<close> of
  \<open>1_Capture Attendance.py\<close>, \<open>init_db\<close>. The \<open>id\<close> column is
  \<open>INTEGER PRIMARY KEY AUTOINCREMENT\<close>: an insert takes one more than the largest id the
  table ever held, which SQLite keeps in its sequence table (\<open>att_seq\<close>). Rows are kept in
  insertion order. Dates are the ISO strings of \<open>date.today().isoformat()\<close>.
\<close>

record attendance =
  att_id :: nat
  att_full_name :: string
  att_reg_no :: string
  att_date :: string
  att_time :: string
  att_status :: string

record att_table =
  att_rows :: "attendance list"
  att_seq :: nat

definition empty_attendance :: att_table where
  "empty_attendance = \<lparr>att_rows = [], att_seq = 0\<rparr>"

text \<open>\<open>INSERT INTO attendance (full_name, reg_no, date, time, status) VALUES (?, ?, ?, ?, ?)\<close>\<close>

definition insert_attendance ::
  "string \<Rightarrow> string \<Rightarrow> string \<Rightarrow> string \<Rightarrow> string \<Rightarrow> att_table \<Rightarrow> att_table" where
  "insert_attendance full_name reg_no d tm st t =
     (let i = Suc (fold max (map att_id (att_rows t)) (att_seq t))
      in \<lparr>att_rows = att_rows t @
              [\<lparr>att_id = i, att_full_name = full_name, att_reg_no = reg_no,
                att_date = d, att_time = tm, att_status = st\<rparr>],
          att_seq = i\<rparr>)"

text \<open>
  \<open>SELECT * FROM attendance WHERE full_name = ? AND date = ?\<close> followed by
  \<open>fetchone()\<close>.
\<close>

definition select_name_date :: "string \<Rightarrow> string \<Rightarrow> att_table \<Rightarrow> attendance option" where
  "select_name_date full_name d t =
     find (\<lambda>r. att_full_name r = full_name \<and> att_date r = d) (att_rows t)"

text \<open>
  Table \<open>students(id, full_name, reg_no UNIQUE, folder_name, image_count,
  registration_date)\<close> of \<open>2_Student Management.py\<close>, \<open>init_db\<close>.
\<close>

record student =
  stu_id :: nat
  stu_full_name :: string
  stu_reg_no :: string
  stu_folder_name :: string
  stu_image_count :: nat
  stu_registration_date :: string

record student_table =
  stu_rows :: "student list"
  stu_seq :: nat

definition empty_students :: student_table where
  "empty_students = \<lparr>stu_rows = [], stu_seq = 0\<rparr>"

text \<open>\<open>SELECT ... FROM students WHERE reg_no = ?\<close> followed by \<open>fetchone()\<close>.\<close>

definition select_student_by_reg :: "string \<Rightarrow> student_table \<Rightarrow> student option" where
  "select_student_by_reg reg_no tbl = find (\<lambda>s. stu_reg_no s = reg_no) (stu_rows tbl)"

text \<open>
  \<open>INSERT OR REPLACE INTO students (full_name, reg_no, folder_name, image_count,
  registration_date) VALUES (?, ?, ?, ?, ?)\<close>: the row that holds the same (unique)
  \<open>reg_no\<close> is deleted, and the new row is inserted with a fresh id.
\<close>

definition insert_or_replace_student ::
  "string \<Rightarrow> string \<Rightarrow> string \<Rightarrow> nat \<Rightarrow> string \<Rightarrow> student_table \<Rightarrow> student_table" where
  "insert_or_replace_student full_name reg_no folder cnt d tbl =
     (let i = Suc (fold max (map stu_id (stu_rows tbl)) (stu_seq tbl))
      in \<lparr>stu_rows = filter (\<lambda>s. stu_reg_no s \<noteq> reg_no) (stu_rows tbl) @
              [\<lparr>stu_id = i, stu_full_name = full_name, stu_reg_no = reg_no,
                stu_folder_name = folder, stu_image_count = cnt,
                stu_registration_date = d\<rparr>],
          stu_seq = i\<rparr>)"

section \<open>What the operator sees, and the mail relay\<close>

text \<open>
  The messages a page shows and the attempt to reach the mail relay are returned as a
  list of effects, in the order the code produces them. The pictographs of the message
  texts are left out.
\<close>

datatype effect =
    Toast string
  | Info string
  | Success string
  | Warning string
  | Error string
  | SmtpAttempt string

text \<open>\<open>EMAIL_SENDER\<close> and \<open>EMAIL_APP_PASSWORD\<close> as \<open>os.getenv\<close> returns them.\<close>

record mail_config =
  EMAIL_SENDER :: "string option"
  EMAIL_APP_PASSWORD :: "string option"

text \<open>What the \<open>with smtplib.SMTP(...)\<close> block does: it completes, or raises.\<close>

datatype smtp_result = Delivered | Raised string

definition truthy :: "string option \<Rightarrow> bool" where
  "truthy v = (case v of None \<Rightarrow> False | Some s \<Rightarrow> s \<noteq> [])"

definition send_attendance_email ::
  "mail_config \<Rightarrow> smtp_result \<Rightarrow> string \<Rightarrow> string \<Rightarrow> effect list" where
  "send_attendance_email cfg smtp full_name reg_no =
     (if \<not> truthy (EMAIL_SENDER cfg) \<or> \<not> truthy (EMAIL_APP_PASSWORD cfg)
      then [Warning ''Email not configured. Set EMAIL_SENDER and EMAIL_APP_PASSWORD in .env to enable notifications.'']
      else (let addr = reg_no @ ''@ses.yu.edu.jo''
            in case smtp of
                 Delivered \<Rightarrow> [SmtpAttempt addr, Success (''Email sent to '' @ addr)]
               | Raised e \<Rightarrow> [SmtpAttempt addr, Error (''Failed to send email: '' @ e)]))"

section \<open>Recognition: \<open>1_Capture Attendance.py\<close>\<close>

text \<open>
  \<open>mark_attendance(full_name, reg_no)\<close>. The clock readings \<open>today\<close> and \<open>now\<close>, the
  mail configuration and the outcome of the delivery are arguments.
\<close>

definition mark_attendance ::
  "mail_config \<Rightarrow> smtp_result \<Rightarrow> string \<Rightarrow> string \<Rightarrow> string \<Rightarrow> string \<Rightarrow> att_table
     \<Rightarrow> att_table \<times> effect list" where
  "mark_attendance cfg smtp today now full_name reg_no t =
     (case select_name_date full_name today t of
        None \<Rightarrow>
          (insert_attendance full_name reg_no today now ''Present'' t,
           Toast (''Attendance marked for '' @ full_name)
             # send_attendance_email cfg smtp full_name reg_no)
      | Some r \<Rightarrow> (t, []))"

text \<open>
  The Encoding Store: the files of the directory \<open>encodings\<close>, each a file name with
  the vectors it holds, in the order \<open>os.listdir\<close> returns them. \<open>np.save\<close> creates or
  overwrites one file.
\<close>

type_synonym 'v encoding_store = "(string \<times> 'v list) list"

record 'v known =
  known_encodings :: "'v list"
  known_names :: "string list"
  reg_map :: "string \<rightharpoonup> string"

definition no_known :: "'v known" where
  "no_known = \<lparr>known_encodings = [], known_names = [], reg_map = Map.empty\<rparr>"

text \<open>
  Lines 109-110 of \<open>load_known_faces\<close>: the identifier is split at its last underscore and
  the other underscores become spaces. Unpacking fails when there is no underscore.
\<close>

definition decode_identifier :: "string \<Rightarrow> py_error + (string \<times> string)" where
  "decode_identifier name_with_reg =
     (case py_rsplit1 (CHR ''_'') name_with_reg of
        [name_part, reg_no] \<Rightarrow>
          Inr (py_lower (py_strip (py_replace_char (CHR ''_'') (CHR '' '') name_part)), reg_no)
      | _ \<Rightarrow> Inl ValueError)"

fun load_encs :: "string \<Rightarrow> 'v list \<Rightarrow> 'v known \<Rightarrow> py_error + 'v known" where
  "load_encs name_with_reg [] k = Inr k"
| "load_encs name_with_reg (enc # encs) k =
     (case decode_identifier name_with_reg of
        Inl e \<Rightarrow> Inl e
      | Inr (full_name, reg_no) \<Rightarrow>
          load_encs name_with_reg encs
            \<lparr>known_encodings = known_encodings k @ [enc],
             known_names = known_names k @ [name_with_reg],
             reg_map = (reg_map k)(full_name \<mapsto> reg_no)\<rparr>)"

fun load_files :: "'v encoding_store \<Rightarrow> 'v known \<Rightarrow> py_error + 'v known" where
  "load_files [] k = Inr k"
| "load_files ((file, encs) # files) k =
     (if py_endswith file ''.npy''
      then (case load_encs (remove_npy file) encs k of
              Inl e \<Rightarrow> Inl e
            | Inr k' \<Rightarrow> load_files files k')
      else load_files files k)"

definition load_known_faces :: "'v encoding_store \<Rightarrow> py_error + 'v known" where
  "load_known_faces store = load_files store no_known"

text \<open>
  \<open>np.argmin\<close>: the index of the first least element; it raises on an empty array.
\<close>

fun argmin_scan :: "real list \<Rightarrow> nat \<Rightarrow> nat \<Rightarrow> real \<Rightarrow> nat" where
  "argmin_scan [] i best least = best"
| "argmin_scan (d # ds) i best least =
     (if d < least then argmin_scan ds (Suc i) i d else argmin_scan ds (Suc i) best least)"

definition np_argmin :: "real list \<Rightarrow> py_error + nat" where
  "np_argmin ds = (case ds of [] \<Rightarrow> Inl ValueError | d # rest \<Rightarrow> Inr (argmin_scan rest 1 0 d))"

text \<open>
  The label drawn over a face: \<open>"Unknown"\<close>, or the name with the distance the
  percentage is printed from.
\<close>

datatype label = Unknown | Recognised string real

text \<open>
  \<open>name_with_reg.replace("_", " ").rsplit(" ", 1)[0].title()\<close>
\<close>

definition display_name :: "string \<Rightarrow> string" where
  "display_name name_with_reg =
     py_title (case py_rsplit1 (CHR '' '') (py_replace_char (CHR ''_'') (CHR '' '') name_with_reg) of
                 [] \<Rightarrow> [] | part # rest \<Rightarrow> part)"

text \<open>
  The body of the loop over the faces of one frame (lines 166-179). \<open>face_distance\<close> is
  the library's distance between two embeddings; the distances are finite numbers, and the
  double nearest to 0.4 lies above 0.4 with no double between them, so that \<open>d < 0.4\<close>
  on reals decides as the comparison of the doubles does. The state is the list
  \<open>st.session_state.recognized_names\<close> with the attendance table.
\<close>

definition recognise_face ::
  "('v \<Rightarrow> 'v \<Rightarrow> real) \<Rightarrow> 'v known \<Rightarrow> mail_config \<Rightarrow> smtp_result \<Rightarrow> string \<Rightarrow> string \<Rightarrow> 'v
     \<Rightarrow> string list \<times> att_table \<Rightarrow> py_error + (label \<times> (string list \<times> att_table) \<times> effect list)" where
  "recognise_face face_distance k cfg smtp today now face_encoding s =
     (let distances = map (\<lambda>e. face_distance e face_encoding) (known_encodings k)
      in case np_argmin distances of
           Inl e \<Rightarrow> Inl e
         | Inr best_match_index \<Rightarrow>
             if distances ! best_match_index < 0.4
             then (if best_match_index < length (known_names k)
                   then (let name = display_name (known_names k ! best_match_index);
                             lbl = Recognised name (distances ! best_match_index)
                         in if name \<notin> set (fst s)
                            then (let full_name = py_lower name;
                                      reg_no = (case reg_map k full_name of
                                                  None \<Rightarrow> ''UNKNOWN'' | Some r \<Rightarrow> r);
                                      m = mark_attendance cfg smtp today now full_name reg_no (snd s)
                                  in Inr (lbl, (fst s @ [name], fst m), snd m))
                            else Inr (lbl, s, []))
                   else Inl IndexError)
             else Inr (Unknown, s, []))"

text \<open>The faces of one frame, in the order the detector returns them.\<close>

fun recognise_frame ::
  "('v \<Rightarrow> 'v \<Rightarrow> real) \<Rightarrow> 'v known \<Rightarrow> mail_config \<Rightarrow> smtp_result \<Rightarrow> string \<Rightarrow> string \<Rightarrow> 'v list
     \<Rightarrow> string list \<times> att_table \<Rightarrow> py_error + (label list \<times> (string list \<times> att_table) \<times> effect list)" where
  "recognise_frame face_distance k cfg smtp today now [] s = Inr ([], s, [])"
| "recognise_frame face_distance k cfg smtp today now (face_encoding # faces) s =
     (case recognise_face face_distance k cfg smtp today now face_encoding s of
        Inl e \<Rightarrow> Inl e
      | Inr (lbl, s', eff) \<Rightarrow>
          (case recognise_frame face_distance k cfg smtp today now faces s' of
             Inl e \<Rightarrow> Inl e
           | Inr (lbls, s'', effs) \<Rightarrow> Inr (lbl # lbls, s'', eff @ effs)))"

subsection \<open>Today's report and the Absent records\<close>

definition get_registered_students :: "student_table \<Rightarrow> string list" where
  "get_registered_students tbl = sort (map stu_full_name (stu_rows tbl))"

definition get_today_present :: "string \<Rightarrow> att_table \<Rightarrow> string list" where
  "get_today_present today t =
     sort (remdups (map att_full_name
       (filter (\<lambda>r. att_date r = today \<and> att_status r = ''Present'') (att_rows t))))"

text \<open>\<open>sorted(list(set(all_students) - set(present_today)))\<close>\<close>

definition absent_of :: "string list \<Rightarrow> string list \<Rightarrow> string list" where
  "absent_of all_students present_today =
     sort (remdups (filter (\<lambda>n. n \<notin> set present_today) all_students))"

fun absent_loop :: "string \<Rightarrow> student_table \<Rightarrow> string list \<Rightarrow> att_table \<Rightarrow> att_table" where
  "absent_loop today tbl [] t = t"
| "absent_loop today tbl (name # names) t =
     (case select_name_date name today t of
        None \<Rightarrow>
          (let reg_no = (case find (\<lambda>s. stu_full_name s = name) (stu_rows tbl) of
                           Some s \<Rightarrow> stu_reg_no s | None \<Rightarrow> ''UNKNOWN'')
           in absent_loop today tbl names (insert_attendance name reg_no today ''-'' ''Absent'' t))
      | Some r \<Rightarrow> absent_loop today tbl names t)"

text \<open>
  The handler of the button "View Today's Attendance Report": the table after it, and
  the three counts it shows (the rate derived from them is presentation).
\<close>

record report =
  rep_total :: nat
  rep_present :: nat
  rep_absent :: nat

definition view_today_report :: "string \<Rightarrow> student_table \<Rightarrow> att_table \<Rightarrow> att_table \<times> report" where
  "view_today_report today tbl t =
     (let all_students = get_registered_students tbl;
          present_today = get_today_present today t;
          absent_students = absent_of all_students present_today
      in (absent_loop today tbl absent_students t,
          \<lparr>rep_total = length all_students, rep_present = length present_today,
           rep_absent = length absent_students\<rparr>))"

subsection \<open>Status toggle\<close>

text \<open>\<open>toggle_status(record_id, current_status)\<close>\<close>

definition toggle_status :: "nat \<Rightarrow> string \<Rightarrow> att_table \<Rightarrow> att_table" where
  "toggle_status record_id current_status t =
     (let new_status = (if current_status = ''Present'' then ''Absent'' else ''Present'')
      in t\<lparr>att_rows := map (\<lambda>r. if att_id r = record_id then r\<lparr>att_status := new_status\<rparr> else r)
                           (att_rows t)\<rparr>)"

section \<open>Edit and save: \<open>3_Attendance Records.py\<close>\<close>

text \<open>
  A row of the edited frame: \<open>id\<close> is NaN (\<open>None\<close>) in a row the operator added.
  \<open>original_data\<close> and \<open>filtered_df\<close> are read from the table, so their rows carry ids.
  A date is the ISO string of the table: \<open>pd.to_datetime\<close> followed by
  \<open>str(row_date)\<close> gives it back.
\<close>

record df_row =
  df_id :: "nat option"
  df_date :: string
  df_full_name :: string
  df_reg_no :: string
  df_time :: string
  df_status :: string

definition to_df_row :: "attendance \<Rightarrow> df_row" where
  "to_df_row r = \<lparr>df_id = Some (att_id r), df_date = att_date r, df_full_name = att_full_name r,
                  df_reg_no = att_reg_no r, df_time = att_time r, df_status = att_status r\<rparr>"

datatype stmt =
    Delete nat
  | Insert string string string string string
  | Update nat string string string string string

fun exec_stmt :: "stmt \<Rightarrow> att_table \<Rightarrow> att_table" where
  "exec_stmt (Delete i) t = t\<lparr>att_rows := filter (\<lambda>r. att_id r \<noteq> i) (att_rows t)\<rparr>"
| "exec_stmt (Insert full_name reg_no d tm st) t = insert_attendance full_name reg_no d tm st t"
| "exec_stmt (Update i full_name reg_no d tm st) t =
     t\<lparr>att_rows := map (\<lambda>r. if att_id r = i
                              then r\<lparr>att_full_name := full_name, att_reg_no := reg_no,
                                     att_date := d, att_time := tm, att_status := st\<rparr>
                              else r) (att_rows t)\<rparr>"

text \<open>
  The statements the handler of "Save Changes" executes (lines 244-280), in order. The
  ids to delete are a Python set; they are listed here in the order of
  \<open>original_data\<close>.
\<close>

definition row_stmt :: "df_row \<Rightarrow> stmt" where
  "row_stmt row =
     (case df_id row of
        None \<Rightarrow> Insert (df_full_name row) (df_reg_no row) (df_date row) (df_time row) (df_status row)
      | Some i \<Rightarrow> Update i (df_full_name row) (df_reg_no row) (df_date row) (df_time row) (df_status row))"

definition save_statements :: "attendance list \<Rightarrow> attendance list \<Rightarrow> df_row list \<Rightarrow> stmt list" where
  "save_statements original_data filtered_df current =
     (let original_visible = filter (\<lambda>r. att_id r \<in> set (map att_id filtered_df)) original_data;
          ids_before = remdups (map att_id original_visible);
          ids_after = concat (map (\<lambda>row. case df_id row of None \<Rightarrow> [] | Some i \<Rightarrow> [i]) current);
          deleted_ids = filter (\<lambda>i. i \<notin> set ids_after) ids_before
      in map Delete deleted_ids @ map row_stmt current)"

text \<open>
  The handler: nothing is written unless the data changed and the save is confirmed.
  \<open>editable_df\<close> exists only when the filtered view is not empty.
\<close>

definition save_changes ::
  "bool \<Rightarrow> bool \<Rightarrow> attendance list \<Rightarrow> attendance list \<Rightarrow> df_row list \<Rightarrow> att_table
     \<Rightarrow> py_error + (att_table \<times> stmt list \<times> effect list)" where
  "save_changes data_changed confirm_save original_data filtered_df current t =
     (if data_changed
      then (if confirm_save
            then (if filtered_df = [] then Inl NameError
                  else (let stmts = save_statements original_data filtered_df current
                        in Inr (fold exec_stmt stmts t, stmts, [Success ''Changes saved successfully.''])))
            else Inr (t, [], [Warning ''Please confirm save before proceeding.'']))
      else Inr (t, [], [Info ''No changes to save.'']))"

definition count_deletes :: "stmt list \<Rightarrow> nat" where
  "count_deletes ss = length (filter (\<lambda>s. case s of Delete i \<Rightarrow> True | _ \<Rightarrow> False) ss)"

definition count_inserts :: "stmt list \<Rightarrow> nat" where
  "count_inserts ss = length (filter (\<lambda>s. case s of Insert a b c d e \<Rightarrow> True | _ \<Rightarrow> False) ss)"

definition count_updates :: "stmt list \<Rightarrow> nat" where
  "count_updates ss = length (filter (\<lambda>s. case s of Update i a b c d e \<Rightarrow> True | _ \<Rightarrow> False) ss)"

section \<open>The write operations on the attendance table\<close>

datatype att_op =
    Mark mail_config smtp_result string string string string
  | Report string student_table
  | Toggle nat string
  | Save bool bool "attendance list" "attendance list" "df_row list"

fun apply_op :: "att_op \<Rightarrow> att_table \<Rightarrow> att_table" where
  "apply_op (Mark cfg smtp today now full_name reg_no) t =
     fst (mark_attendance cfg smtp today now full_name reg_no t)"
| "apply_op (Report today tbl) t = fst (view_today_report today tbl t)"
| "apply_op (Toggle record_id current_status) t = toggle_status record_id current_status t"
| "apply_op (Save data_changed confirm_save original_data filtered_df current) t =
     (case save_changes data_changed confirm_save original_data filtered_df current t of
        Inl e \<Rightarrow> t
      | Inr res \<Rightarrow> fst res)"

fun is_save :: "att_op \<Rightarrow> bool" where
  "is_save (Save a b c d e) = True"
| "is_save other = False"

definition run_ops :: "att_op list \<Rightarrow> att_table \<Rightarrow> att_table" where
  "run_ops ops t = fold apply_op ops t"

definition present_records :: "string \<Rightarrow> string \<Rightarrow> att_table \<Rightarrow> attendance list" where
  "present_records full_name d t =
     filter (\<lambda>r. att_full_name r = full_name \<and> att_date r = d \<and> att_status r = ''Present'')
       (att_rows t)"

section \<open>Enrollment: \<open>2_Student Management.py\<close>\<close>

definition normalize_folder_name :: "string \<Rightarrow> string \<Rightarrow> string" where
  "normalize_folder_name name reg_no =
     (let name' = py_replace_char (CHR '' '') (CHR ''_'') (py_lower (py_strip name));
          reg_no' = py_lower (py_strip reg_no)
      in name' @ ''_'' @ reg_no')"

text \<open>\<open>len(student_name.strip().split()) == 3 if student_name else False\<close>\<close>

definition name_valid :: "string \<Rightarrow> bool" where
  "name_valid student_name =
     (if student_name \<noteq> [] then length (py_split (py_strip student_name)) = 3 else False)"

text \<open>
  One frame of the capture loop as the loop sees it: how many faces the detector found,
  the variance of the Laplacian of the first face, the embedding of that face if the
  library returned one, and whether ESC was pressed after the frame.
\<close>

record 'v frame =
  faces :: nat
  laplacian_var :: real
  encoding :: "'v option"
  esc_pressed :: bool

record 'v capture =
  total_attempts :: nat
  accepted :: nat
  rejected_blur :: nat
  rejected_encoding :: nat
  rejected_no_face :: nat
  encodings :: "'v list"

definition start_capture :: "'v capture" where
  "start_capture = \<lparr>total_attempts = 0, accepted = 0, rejected_blur = 0, rejected_encoding = 0,
                    rejected_no_face = 0, encodings = []\<rparr>"

definition capture_frame :: "'v frame \<Rightarrow> 'v capture \<Rightarrow> 'v capture" where
  "capture_frame f c =
     (let c1 = c\<lparr>total_attempts := total_attempts c + 1\<rparr>
      in if faces f = 0 then c1\<lparr>rejected_no_face := rejected_no_face c1 + 1\<rparr>
         else if laplacian_var f < 100 then c1\<lparr>rejected_blur := rejected_blur c1 + 1\<rparr>
         else (case encoding f of
                 Some e \<Rightarrow> c1\<lparr>encodings := encodings c1 @ [e], accepted := accepted c1 + 1\<rparr>
               | None \<Rightarrow> c1\<lparr>rejected_encoding := rejected_encoding c1 + 1\<rparr>))"

text \<open>
  The loop \<open>while accepted < num_images_to_capture\<close> over the frames the camera
  delivers; the end of the list is the read that fails. The alerts the loop shows and
  overwrites while it runs, and the audit images it writes to \<open>dataset/\<close>, are not
  recorded: they touch neither the registry nor the Encoding Store.
\<close>

fun capture_loop :: "nat \<Rightarrow> 'v frame list \<Rightarrow> 'v capture \<Rightarrow> 'v capture" where
  "capture_loop n [] c = c"
| "capture_loop n (f # fs) c =
     (if accepted c < n
      then (let c' = capture_frame f c in if esc_pressed f then c' else capture_loop n fs c')
      else c)"

text \<open>
  The state one run of the page reads and writes: the registry, the Encoding Store, and
  the session's \<open>allow_capture\<close> flag and capture statistics.
\<close>

record 'v enroll_state =
  students :: student_table
  encoding_store :: "'v encoding_store"
  allow_capture_flag :: bool
  capture_stats :: "'v capture option"

text \<open>
  The inputs of one run: the two text fields, the slider, the two buttons, the camera
  (\<open>None\<close> when it cannot be opened) and the date.
\<close>

record 'v enroll_input =
  in_student_name :: string
  in_registration_number :: string
  in_num_images :: nat
  in_capture_button :: bool
  in_continue_button :: bool
  in_camera :: "'v frame list option"
  in_today :: string

definition run_camera :: "'v enroll_input \<Rightarrow> 'v capture" where
  "run_camera inp =
     (case in_camera inp of
        None \<Rightarrow> start_capture
      | Some frames \<Rightarrow> capture_loop (in_num_images inp) frames start_capture)"

text \<open>Lines 161-192: what follows the capture loop.\<close>

definition register_capture ::
  "string \<Rightarrow> string \<Rightarrow> string \<Rightarrow> 'v capture \<Rightarrow> 'v enroll_state \<Rightarrow> 'v enroll_state \<times> effect list" where
  "register_capture student_name registration_number today c st =
     (let folder_name = normalize_folder_name student_name registration_number;
          encoding_path = folder_name @ ''.npy''
      in if encodings c \<noteq> []
         then (let saved = (case map_of (encoding_store st) encoding_path of
                              Some old_encodings \<Rightarrow> old_encodings @ encodings c
                            | None \<Rightarrow> encodings c);
                   previous_count = (case select_student_by_reg registration_number (students st) of
                                       Some row \<Rightarrow> stu_image_count row | None \<Rightarrow> 0);
                   total_count = previous_count + accepted c
               in (st\<lparr>students := insert_or_replace_student (py_lower (py_strip student_name))
                                     registration_number folder_name total_count today (students st),
                      encoding_store := AList.update encoding_path saved (encoding_store st),
                      capture_stats := Some c\<rparr>,
                   [Success (''Encodings saved for '' @ student_name)]))
         else (st, [Error ''No face encodings captured.'']))"

text \<open>Lines 66-79: the lookup of the registration number.\<close>

definition existing_row :: "'v enroll_input \<Rightarrow> 'v enroll_state \<Rightarrow> student option" where
  "existing_row inp st =
     (let registration_number = py_strip (in_registration_number inp)
      in if registration_number \<noteq> [] \<and> name_valid (in_student_name inp)
         then select_student_by_reg registration_number (students st)
         else None)"

definition matched_existing_name :: "'v enroll_input \<Rightarrow> 'v enroll_state \<Rightarrow> bool" where
  "matched_existing_name inp st =
     (case existing_row inp st of
        None \<Rightarrow> False
      | Some row \<Rightarrow> py_lower (py_strip (stu_full_name row)) = py_lower (py_strip (in_student_name inp)))"

text \<open>Lines 92-95: the guard \<open>allow_capture\<close>.\<close>

definition allow_capture :: "'v enroll_input \<Rightarrow> 'v enroll_state \<Rightarrow> bool" where
  "allow_capture inp st =
     (let reg_exists = (existing_row inp st \<noteq> None)
      in in_student_name inp \<noteq> [] \<and> py_strip (in_registration_number inp) \<noteq> [] \<and>
         name_valid (in_student_name inp) \<and>
         (\<not> reg_exists \<or> (reg_exists \<and> matched_existing_name inp st \<and> allow_capture_flag st)))"

text \<open>One run of the page, from the form to the registry.\<close>

definition enroll_page :: "'v enroll_input \<Rightarrow> 'v enroll_state \<Rightarrow> 'v enroll_state \<times> effect list" where
  "enroll_page inp st =
     (let student_name = in_student_name inp;
          registration_number = py_strip (in_registration_number inp);
          reg_exists = (existing_row inp st \<noteq> None);
          matched = matched_existing_name inp st;
          warn = (if student_name \<noteq> [] \<and> \<not> name_valid student_name
                  then [Warning ''Full name must contain exactly 3 parts (e.g., Ahmad Mahmoud Kraiem).'']
                  else [])
      in if allow_capture inp st
         then (if in_capture_button inp
               then (let res = register_capture student_name registration_number (in_today inp)
                                 (run_camera inp) st
                     in (fst res, warn @ snd res))
               else (st, warn))
         else if name_valid student_name \<and> registration_number \<noteq> []
         then (if reg_exists \<and> \<not> matched
               then (st, warn @ [Error ''This registration number is already used by another student.''])
               else if reg_exists \<and> matched \<and> \<not> allow_capture_flag st
               then (if in_continue_button inp then st\<lparr>allow_capture_flag := True\<rparr> else st,
                     warn @ [Warning ''This student is already registered. You can add more images if needed.''])
               else (st, warn))
         else (st, warn))"

section \<open>The classification the claims speak of\<close>



text \<open>
  An enrolled student: the name and the registration number typed at enrollment, and the
  vectors of the student's file. \<open>store_of\<close> is the Encoding Store that enrollment wrote
  for a list of students (line 100: the file is the identifier with \<open>.npy\<close>), and
  \<open>known_pairs\<close> lists every known embedding with the student it was enrolled for.
\<close>

type_synonym 'v enrolment = "string \<times> string \<times> 'v list"

definition store_of :: "'v enrolment list \<Rightarrow> 'v encoding_store" where
  "store_of es = map (\<lambda>(n, r, vs). (normalize_folder_name n r @ ''.npy'', vs)) es"






section \<open>The invariant of the attendance table\<close>

text \<open>No two records of the table share the full name and the date.\<close>

definition per_day_unique :: "att_table \<Rightarrow> bool" where
  "per_day_unique t = distinct (map (\<lambda>r. (att_full_name r, att_date r)) (att_rows t))"

section \<open>Example data\<close>

text \<open>
  A table of four records. Three of them, of 2025-03-01, are the filtered view; the
  operator deletes the first, sets the second to Absent and leaves the third.
\<close>

definition ex_outside :: attendance where
  "ex_outside = \<lparr>att_id = 1, att_full_name = ''a b c'', att_reg_no = ''1'',
                  att_date = ''2025-02-28'', att_time = ''09:00:00'', att_status = ''Present''\<rparr>"

definition ex_deleted :: attendance where
  "ex_deleted = \<lparr>att_id = 2, att_full_name = ''a b c'', att_reg_no = ''1'',
                  att_date = ''2025-03-01'', att_time = ''09:15:00'', att_status = ''Present''\<rparr>"

definition ex_edited :: attendance where
  "ex_edited = \<lparr>att_id = 3, att_full_name = ''d e f'', att_reg_no = ''2'',
                 att_date = ''2025-03-01'', att_time = ''09:20:00'', att_status = ''Present''\<rparr>"

definition ex_unchanged :: attendance where
  "ex_unchanged = \<lparr>att_id = 4, att_full_name = ''g h i'', att_reg_no = ''3'',
                    att_date = ''2025-03-01'', att_time = ''-'', att_status = ''Absent''\<rparr>"

definition ex_table :: att_table where
  "ex_table = \<lparr>att_rows = [ex_outside, ex_deleted, ex_edited, ex_unchanged], att_seq = 4\<rparr>"

definition ex_current :: "df_row list" where
  "ex_current = [(to_df_row ex_edited)\<lparr>df_status := ''Absent''\<rparr>, to_df_row ex_unchanged]"

text \<open>
  Enrollment: a fresh state, frames the loop accepts or rejects, and the inputs of a first
  enrollment, a confirmation, a re-enrollment, an attempt under a registration number that
  another name holds, and a session that accepts nothing.
\<close>

definition ex_fresh :: "nat enroll_state" where
  "ex_fresh = \<lparr>students = empty_students, encoding_store = [], allow_capture_flag = False,
                capture_stats = None\<rparr>"

definition ex_good :: "nat \<Rightarrow> nat frame" where
  "ex_good v = \<lparr>faces = 1, laplacian_var = 150, encoding = Some v, esc_pressed = False\<rparr>"

definition ex_no_face :: "nat frame" where
  "ex_no_face = \<lparr>faces = 0, laplacian_var = 0, encoding = None, esc_pressed = False\<rparr>"

definition ex_blurred :: "nat frame" where
  "ex_blurred = \<lparr>faces = 1, laplacian_var = 40, encoding = Some 9, esc_pressed = False\<rparr>"

definition ex_first :: "nat enroll_input" where
  "ex_first = \<lparr>in_student_name = ''Ahmad Mahmoud Kraiem'', in_registration_number = ''20201001'',
                in_num_images = 2, in_capture_button = True, in_continue_button = False,
                in_camera = Some [ex_good 1, ex_good 2, ex_good 3], in_today = ''2025-03-01''\<rparr>"

definition ex_confirm :: "nat enroll_input" where
  "ex_confirm = \<lparr>in_student_name = ''Ahmad Mahmoud Kraiem'', in_registration_number = ''20201001'',
                  in_num_images = 2, in_capture_button = False, in_continue_button = True,
                  in_camera = None, in_today = ''2025-03-02''\<rparr>"

definition ex_again :: "nat enroll_input" where
  "ex_again = \<lparr>in_student_name = '' ahmad mahmoud KRAIEM'', in_registration_number = ''20201001 '',
                in_num_images = 2, in_capture_button = True, in_continue_button = False,
                in_camera = Some [ex_no_face, ex_good 3, ex_blurred, ex_good 4], in_today = ''2025-03-02''\<rparr>"

definition ex_conflict :: "nat enroll_input" where
  "ex_conflict = \<lparr>in_student_name = ''Sara Ali Hasan'', in_registration_number = ''20201001'',
                   in_num_images = 2, in_capture_button = True, in_continue_button = False,
                   in_camera = Some [ex_good 5, ex_good 6], in_today = ''2025-03-02''\<rparr>"

definition ex_nothing :: "nat enroll_input" where
  "ex_nothing = \<lparr>in_student_name = ''Sara Ali Hasan'', in_registration_number = ''20201002'',
                  in_num_images = 2, in_capture_button = True, in_continue_button = False,
                  in_camera = Some [ex_no_face, ex_blurred], in_today = ''2025-03-02''\<rparr>"

definition ex_row :: student where
  "ex_row = \<lparr>stu_id = 1, stu_full_name = ''ahmad mahmoud kraiem'', stu_reg_no = ''20201001'',
              stu_folder_name = ''ahmad_mahmoud_kraiem_20201001'', stu_image_count = 2,
              stu_registration_date = ''2025-03-01''\<rparr>"

definition ex_enrolled :: "nat enroll_state" where
  "ex_enrolled = fst (enroll_page ex_confirm (fst (enroll_page ex_first ex_fresh)))"

text \<open>
  The attendance table: a configuration with no credentials; operations without and with
  edit/save (the save adds one row for a student already marked Present that day); a
  registry of three students with one of them present; and a registry of one student who
  was marked Present and then toggled to Absent.
\<close>

definition ex_cfg :: mail_config where
  "ex_cfg = \<lparr>EMAIL_SENDER = None, EMAIL_APP_PASSWORD = None\<rparr>"

definition ex_ops_without_save :: "att_op list" where
  "ex_ops_without_save =
     [Mark ex_cfg Delivered ''2025-03-01'' ''09:15:00'' ''a b c'' ''1'',
      Mark ex_cfg Delivered ''2025-03-01'' ''09:20:00'' ''a b c'' ''1'',
      Toggle 1 ''Present'',
      Report ''2025-03-01'' empty_students,
      Mark ex_cfg Delivered ''2025-03-01'' ''11:00:00'' ''a b c'' ''1'']"

definition ex_present :: attendance where
  "ex_present = \<lparr>att_id = 1, att_full_name = ''a b c'', att_reg_no = ''1'',
                  att_date = ''2025-03-01'', att_time = ''09:15:00'', att_status = ''Present''\<rparr>"

definition ex_added :: df_row where
  "ex_added = \<lparr>df_id = None, df_date = ''2025-03-01'', df_full_name = ''a b c'', df_reg_no = ''1'',
                df_time = ''10:00:00'', df_status = ''Present''\<rparr>"

definition ex_ops_with_save :: "att_op list" where
  "ex_ops_with_save =
     [Mark ex_cfg Delivered ''2025-03-01'' ''09:15:00'' ''a b c'' ''1'',
      Save True True [ex_present] [ex_present] [to_df_row ex_present, ex_added]]"

definition ex_registry :: student_table where
  "ex_registry =
     \<lparr>stu_rows =
        [\<lparr>stu_id = 1, stu_full_name = ''a b c'', stu_reg_no = ''1'', stu_folder_name = ''a_b_c_1'',
          stu_image_count = 5, stu_registration_date = ''2025-02-01''\<rparr>,
         \<lparr>stu_id = 2, stu_full_name = ''d e f'', stu_reg_no = ''2'', stu_folder_name = ''d_e_f_2'',
          stu_image_count = 5, stu_registration_date = ''2025-02-01''\<rparr>,
         \<lparr>stu_id = 3, stu_full_name = ''g h i'', stu_reg_no = ''3'', stu_folder_name = ''g_h_i_3'',
          stu_image_count = 5, stu_registration_date = ''2025-02-01''\<rparr>],
      stu_seq = 3\<rparr>"

definition ex_one_present :: att_table where
  "ex_one_present =
     \<lparr>att_rows = [\<lparr>att_id = 1, att_full_name = ''d e f'', att_reg_no = ''2'',
                    att_date = ''2025-03-01'', att_time = ''09:15:00'', att_status = ''Present''\<rparr>],
      att_seq = 1\<rparr>"

definition ex_registry_one :: student_table where
  "ex_registry_one =
     \<lparr>stu_rows =
        [\<lparr>stu_id = 1, stu_full_name = ''a b c'', stu_reg_no = ''1'', stu_folder_name = ''a_b_c_1'',
          stu_image_count = 5, stu_registration_date = ''2025-02-01''\<rparr>],
      stu_seq = 1\<rparr>"

definition ex_toggled :: att_table where
  "ex_toggled =
     toggle_status 1 ''Present''
       (fst (mark_attendance ex_cfg Delivered ''2025-03-01'' ''09:15:00'' ''a b c'' ''1''
               empty_attendance))"

text \<open>
  Recognition: a distance on numbers standing for embeddings, two enrolled students with
  the known faces their files load to, and a student whose registration number holds a
  space.
\<close>

definition ex_distance :: "real \<Rightarrow> real \<Rightarrow> real" where
  "ex_distance a b = \<bar>a - b\<bar> / 10"

definition ex_students :: "real enrolment list" where
  "ex_students = [(''Ahmad Mahmoud Kraiem'', ''20201001'', [1, 5]),
                  (''Sara Ali Hasan'', ''20201002'', [9])]"

definition ex_known :: "real known" where
  "ex_known = \<lparr>known_encodings = [1, 5, 9],
               known_names = [''ahmad_mahmoud_kraiem_20201001'', ''ahmad_mahmoud_kraiem_20201001'',
                              ''sara_ali_hasan_20201002''],
               reg_map = [''ahmad mahmoud kraiem'' \<mapsto> ''20201001'', ''sara ali hasan'' \<mapsto> ''20201002'']\<rparr>"

definition ex_spaced :: "real enrolment list" where
  "ex_spaced = [(''Ahmad Mahmoud Kraiem'', ''2020 1001'', [1, 5])]"


section \<open>Facts about the string functions\<close>

lemma lower_char_code:
  "(of_char (lower_char c) :: nat) =
     (if 65 \<le> (of_char c :: nat) \<and> (of_char c :: nat) \<le> 90 then of_char c + 32 else of_char c)"
  by (simp add: lower_char_def Let_def)

lemma lower_char_idem: "lower_char (lower_char c) = lower_char c"
  by (simp add: lower_char_def Let_def)

lemma is_space_lower_char: "is_space (lower_char c) = is_space c"
  by (auto simp add: is_space_def lower_char_code Let_def)

lemma char_eq_code: "(c = d) = ((of_char c :: nat) = of_char d)"
  by simp

lemma lower_char_underscore: "(lower_char c = CHR ''_'') = (c = CHR ''_'')"
  by (simp add: char_eq_code[of _ "CHR ''_''"] lower_char_code)

lemma py_lower_idem: "py_lower (py_lower s) = py_lower s"
  by (simp add: py_lower_def lower_char_idem)

lemma underscore_py_lower: "CHR ''_'' \<in> set (py_lower s) = (CHR ''_'' \<in> set s)"
  by (induction s) (simp_all add: py_lower_def lower_char_underscore eq_commute[of "CHR ''_''"])

lemma set_py_strip: "set (py_strip s) \<subseteq> set s"
  unfolding py_strip_def
  by (metis set_dropWhileD set_rev subsetI)

lemma stripped_fix: "stripped s \<Longrightarrow> py_strip s = s"
proof (cases "s = []")
  case True
  then show ?thesis by (simp add: py_strip_def)
next
  case False
  assume "stripped s"
  with False have h: "\<not> is_space (hd s)" and l: "\<not> is_space (last s)"
    by (simp_all add: stripped_def)
  have 1: "dropWhile is_space s = s"
    using h by (simp add: dropWhile_eq_self_iff)
  have 2: "dropWhile is_space (rev s) = rev s"
    using l False by (simp add: dropWhile_eq_self_iff hd_rev)
  show ?thesis by (simp add: py_strip_def 1 2)
qed

lemma stripped_py_strip: "stripped (py_strip s)"
proof (cases "dropWhile is_space (rev (dropWhile is_space s)) = []")
  case True
  then show ?thesis by (simp add: stripped_def py_strip_def)
next
  case False
  let ?a = "dropWhile is_space s"
  let ?b = "dropWhile is_space (rev ?a)"
  have a_ne: "?a \<noteq> []"
  proof
    assume "?a = []"
    then have "?b = []" by (simp only: rev.simps dropWhile.simps)
    with False show False by contradiction
  qed
  have hd_b: "\<not> is_space (hd ?b)" using False by (rule hd_dropWhile)
  have hd_a: "\<not> is_space (hd ?a)" using a_ne by (rule hd_dropWhile)
  from False obtain x where x: "x \<in> set (rev ?a)" "\<not> is_space x"
    unfolding dropWhile_eq_Nil_conv by blast
  have "last ?b = last (rev ?a)" using x by (rule dropWhile_last)
  also have "\<dots> = hd ?a" using a_ne by (simp add: last_rev)
  finally have last_b: "\<not> is_space (last ?b)" using hd_a by simp
  show ?thesis
    using False hd_b last_b by (simp add: stripped_def py_strip_def hd_rev last_rev)
qed

lemma stripped_py_lower: "stripped s \<Longrightarrow> stripped (py_lower s)"
  by (cases s) (auto simp: stripped_def py_lower_def is_space_lower_char hd_map last_map)

lemma normal_name_fix: "py_lower (py_strip (py_lower (py_strip s))) = py_lower (py_strip s)"
  by (simp add: stripped_fix stripped_py_lower stripped_py_strip py_lower_idem)

lemma rsplit_last: "sep \<notin> set r \<Longrightarrow> py_rsplit1 sep (n @ sep # r) = [n, r]"
proof -
  assume "sep \<notin> set r"
  then have "dropWhile (\<lambda>c. c \<noteq> sep) (rev (n @ sep # r)) = sep # rev n"
    by (simp add: dropWhile_append)
  moreover have "takeWhile (\<lambda>c. c \<noteq> sep) (rev (n @ sep # r)) = rev r"
    using \<open>sep \<notin> set r\<close> by (simp add: takeWhile_append)
  ultimately show ?thesis by (simp add: py_rsplit1_def)
qed

lemma replace_undone: "b \<notin> set s \<Longrightarrow> py_replace_char b a (py_replace_char a b s) = s"
  by (induction s) (auto simp: py_replace_char_def)

section \<open>Facts about the attendance table\<close>

lemma select_name_date_None:
  "(select_name_date n d t = None) =
     (\<not> (\<exists>r \<in> set (att_rows t). att_full_name r = n \<and> att_date r = d))"
  by (auto simp: select_name_date_def find_None_iff)

lemma att_rows_insert:
  "att_rows (insert_attendance n reg d tm st t) =
     att_rows t @ [\<lparr>att_id = Suc (fold max (map att_id (att_rows t)) (att_seq t)),
                    att_full_name = n, att_reg_no = reg, att_date = d, att_time = tm, att_status = st\<rparr>]"
  by (simp add: insert_attendance_def Let_def)

lemma per_day_unique_insert:
  "per_day_unique t \<Longrightarrow> select_name_date n d t = None
     \<Longrightarrow> per_day_unique (insert_attendance n reg d tm st t)"
  by (auto simp: per_day_unique_def att_rows_insert select_name_date_None)

lemma per_day_unique_mark:
  "per_day_unique t \<Longrightarrow> per_day_unique (fst (mark_attendance cfg smtp today now n reg t))"
  by (cases "select_name_date n today t") (simp_all add: mark_attendance_def per_day_unique_insert)

lemma per_day_unique_absent_loop:
  "per_day_unique t \<Longrightarrow> per_day_unique (absent_loop today tbl names t)"
proof (induction names arbitrary: t)
  case Nil
  then show ?case by simp
next
  case (Cons n names)
  show ?case
  proof (cases "select_name_date n today t")
    case None
    with Cons.prems have "per_day_unique (insert_attendance n
        (case find (\<lambda>s. stu_full_name s = n) (stu_rows tbl) of Some s \<Rightarrow> stu_reg_no s | None \<Rightarrow> ''UNKNOWN'')
        today ''-'' ''Absent'' t)"
      by (simp add: per_day_unique_insert)
    then show ?thesis using None by (simp add: Cons.IH)
  next
    case (Some r)
    then show ?thesis using Cons by simp
  qed
qed

lemma per_day_unique_report:
  "per_day_unique t \<Longrightarrow> per_day_unique (fst (view_today_report today tbl t))"
  by (simp add: view_today_report_def Let_def per_day_unique_absent_loop)

lemma per_day_unique_toggle:
  "per_day_unique t \<Longrightarrow> per_day_unique (toggle_status i s t)"
proof -
  have "map (\<lambda>r. (att_full_name r, att_date r)) (att_rows (toggle_status i s t))
          = map (\<lambda>r. (att_full_name r, att_date r)) (att_rows t)"
    by (simp add: toggle_status_def Let_def comp_def)
  then show "per_day_unique t \<Longrightarrow> per_day_unique (toggle_status i s t)"
    by (simp add: per_day_unique_def)
qed

lemma per_day_unique_apply_op:
  "\<not> is_save op \<Longrightarrow> per_day_unique t \<Longrightarrow> per_day_unique (apply_op op t)"
  by (cases op) (simp_all add: per_day_unique_mark per_day_unique_report per_day_unique_toggle)

lemma per_day_unique_run_ops:
  "\<forall>op \<in> set ops. \<not> is_save op \<Longrightarrow> per_day_unique t \<Longrightarrow> per_day_unique (run_ops ops t)"
  unfolding run_ops_def
  by (induction ops arbitrary: t) (simp_all add: per_day_unique_apply_op)

lemma distinct_key_filter_le_1:
  "distinct (map f xs) \<Longrightarrow> length (filter (\<lambda>x. f x = k \<and> P x) xs) \<le> 1"
proof (induction xs)
  case Nil
  then show ?case by simp
next
  case (Cons x xs)
  show ?case
  proof (cases "f x = k")
    case True
    from Cons.prems have "f x \<notin> f ` set xs" by simp
    with True have "\<forall>y \<in> set xs. f y \<noteq> k" by blast
    then have "filter (\<lambda>x. f x = k \<and> P x) xs = []" by (auto simp: filter_empty_conv)
    then show ?thesis by simp
  next
    case False
    with Cons show ?thesis by simp
  qed
qed

lemma find_snoc_other: "\<not> P x \<Longrightarrow> find P (xs @ [x]) = find P xs"
  by (induction xs) auto

lemma select_name_date_insert_other:
  "m \<noteq> n \<Longrightarrow> select_name_date m d (insert_attendance n reg d' tm st t) = select_name_date m d t"
  by (simp add: select_name_date_def att_rows_insert find_snoc_other)

lemma absent_loop_length:
  "distinct names \<Longrightarrow>
     length (att_rows (absent_loop today tbl names t))
       = length (att_rows t) + length (filter (\<lambda>n. select_name_date n today t = None) names)"
proof (induction names arbitrary: t)
  case Nil
  then show ?case by simp
next
  case (Cons n names)
  from Cons.prems have dn: "distinct names" and nn: "n \<notin> set names" by simp_all
  show ?case
  proof (cases "select_name_date n today t")
    case None
    let ?reg = "case find (\<lambda>s. stu_full_name s = n) (stu_rows tbl) of Some s \<Rightarrow> stu_reg_no s | None \<Rightarrow> ''UNKNOWN''"
    let ?t1 = "insert_attendance n ?reg today ''-'' ''Absent'' t"
    have same: "filter (\<lambda>m. select_name_date m today ?t1 = None) names
                  = filter (\<lambda>m. select_name_date m today t = None) names"
    proof (rule filter_cong[OF refl])
      fix m
      assume "m \<in> set names"
      with nn have "m \<noteq> n" by auto
      then show "(select_name_date m today ?t1 = None) = (select_name_date m today t = None)"
        by (simp add: select_name_date_insert_other)
    qed
    have "length (att_rows (absent_loop today tbl names ?t1))
            = length (att_rows ?t1) + length (filter (\<lambda>m. select_name_date m today ?t1 = None) names)"
      using dn by (rule Cons.IH)
    then show ?thesis using None same by (simp add: att_rows_insert)
  next
    case (Some r)
    then show ?thesis using Cons.IH[OF dn, of t] by simp
  qed
qed

lemma absent_loop_appends:
  "\<exists>new. att_rows (absent_loop today tbl names t) = att_rows t @ new
         \<and> (\<forall>r \<in> set new. att_time r = ''-'' \<and> att_status r = ''Absent'' \<and> att_date r = today
                \<and> att_full_name r \<in> set names)"
proof (induction names arbitrary: t)
  case Nil
  then show ?case by simp
next
  case (Cons n names)
  show ?case
  proof (cases "select_name_date n today t")
    case None
    let ?reg = "case find (\<lambda>s. stu_full_name s = n) (stu_rows tbl) of Some s \<Rightarrow> stu_reg_no s | None \<Rightarrow> ''UNKNOWN''"
    let ?t1 = "insert_attendance n ?reg today ''-'' ''Absent'' t"
    from Cons.IH[of ?t1] obtain new where
      new: "att_rows (absent_loop today tbl names ?t1) = att_rows ?t1 @ new"
        "\<forall>r \<in> set new. att_time r = ''-'' \<and> att_status r = ''Absent'' \<and> att_date r = today
                \<and> att_full_name r \<in> set names" by blast
    let ?row = "\<lparr>att_id = Suc (fold max (map att_id (att_rows t)) (att_seq t)),
                    att_full_name = n, att_reg_no = ?reg, att_date = today, att_time = ''-'', att_status = ''Absent''\<rparr>"
    have "att_rows (absent_loop today tbl (n # names) t) = att_rows t @ (?row # new)"
      using None new(1) by (simp add: att_rows_insert)
    moreover have "\<forall>r \<in> set (?row # new). att_time r = ''-'' \<and> att_status r = ''Absent'' \<and> att_date r = today
                \<and> att_full_name r \<in> set (n # names)"
      using new(2) by simp
    ultimately show ?thesis by blast
  next
    case (Some r)
    from Cons.IH[of t] obtain new where
      "att_rows (absent_loop today tbl names t) = att_rows t @ new"
        "\<forall>r \<in> set new. att_time r = ''-'' \<and> att_status r = ''Absent'' \<and> att_date r = today
                \<and> att_full_name r \<in> set names" by blast
    then show ?thesis using Some by auto
  qed
qed

lemma select_name_date_append:
  "select_name_date n d t \<noteq> None \<Longrightarrow> att_rows t' = att_rows t @ new
     \<Longrightarrow> select_name_date n d t' \<noteq> None"
  by (auto simp: select_name_date_None)

lemma absent_loop_keeps_record:
  "select_name_date n d t \<noteq> None \<Longrightarrow> select_name_date n d (absent_loop today tbl names t) \<noteq> None"
  using absent_loop_appends[of today tbl names t] select_name_date_append[of n d t] by blast

lemma absent_loop_covers:
  "\<forall>n \<in> set names. select_name_date n today (absent_loop today tbl names t) \<noteq> None"
proof (induction names arbitrary: t)
  case Nil
  then show ?case by simp
next
  case (Cons n names)
  show ?case
  proof (cases "select_name_date n today t")
    case None
    let ?reg = "case find (\<lambda>s. stu_full_name s = n) (stu_rows tbl) of Some s \<Rightarrow> stu_reg_no s | None \<Rightarrow> ''UNKNOWN''"
    let ?t1 = "insert_attendance n ?reg today ''-'' ''Absent'' t"
    have "select_name_date n today ?t1 \<noteq> None"
      by (auto simp: select_name_date_None att_rows_insert)
    then have "select_name_date n today (absent_loop today tbl names ?t1) \<noteq> None"
      by (rule absent_loop_keeps_record)
    with Cons.IH[of ?t1] None show ?thesis by simp
  next
    case (Some r)
    then have "select_name_date n today t \<noteq> None" by simp
    then have "select_name_date n today (absent_loop today tbl names t) \<noteq> None"
      by (rule absent_loop_keeps_record)
    with Cons.IH[of t] Some show ?thesis by simp
  qed
qed

lemma absent_loop_nothing_to_do:
  "\<forall>n \<in> set names. select_name_date n today t \<noteq> None \<Longrightarrow> absent_loop today tbl names t = t"
  by (induction names) auto

lemma get_today_present_absent_loop:
  "get_today_present today (absent_loop today' tbl names t) = get_today_present today t"
proof -
  from absent_loop_appends[of today' tbl names t] obtain new where
    "att_rows (absent_loop today' tbl names t) = att_rows t @ new"
    "\<forall>r \<in> set new. att_status r = ''Absent''" by blast
  then show ?thesis
    by (simp add: get_today_present_def filter_empty_conv)
  qed

lemma report_idempotent:
  "fst (view_today_report today tbl (fst (view_today_report today tbl t)))
     = fst (view_today_report today tbl t)"
  by (simp add: view_today_report_def Let_def get_today_present_absent_loop
        absent_loop_nothing_to_do absent_loop_covers)

lemma absent_of_set: "set (absent_of all_students present_today) = set all_students - set present_today"
  by (auto simp: absent_of_def)

lemma absent_of_distinct: "distinct (absent_of all_students present_today)"
  by (simp add: absent_of_def)

lemma get_today_present_distinct: "distinct (get_today_present today t)"
  by (simp add: get_today_present_def)

lemma get_today_present_set:
  "set (get_today_present today t)
     = {att_full_name r | r. r \<in> set (att_rows t) \<and> att_date r = today \<and> att_status r = ''Present''}"
  by (auto simp: get_today_present_def)

lemma absent_of_length:
  assumes "distinct all_students" and "distinct present_today"
    and "set present_today \<subseteq> set all_students"
  shows "length (absent_of all_students present_today) = length all_students - length present_today"
proof -
  have "length (absent_of all_students present_today) = card (set all_students - set present_today)"
    using absent_of_distinct[of all_students present_today]
    by (simp add: distinct_card[symmetric] absent_of_set)
  also have "\<dots> = card (set all_students) - card (set present_today)"
    using assms(3) by (simp add: card_Diff_subset)
  also have "\<dots> = length all_students - length present_today"
    using assms(1,2) by (simp add: distinct_card)
  finally show ?thesis .
qed

section \<open>Facts about edit and save\<close>

lemma filter_update_outside:
  "i \<in> F \<Longrightarrow> (\<And>r. att_id (g r) = att_id r) \<Longrightarrow>
     filter (\<lambda>r. att_id r \<notin> F) (map (\<lambda>r. if att_id r = i then g r else r) rows)
       = filter (\<lambda>r. att_id r \<notin> F) rows"
  by (induction rows) auto

lemma exec_stmt_frame:
  assumes "case s of Delete i \<Rightarrow> i \<in> F | Update i a b c d e \<Rightarrow> i \<in> F | Insert a b c d e \<Rightarrow> False"
  shows "filter (\<lambda>r. att_id r \<notin> F) (att_rows (exec_stmt s t)) = filter (\<lambda>r. att_id r \<notin> F) (att_rows t)"
proof (cases s)
  case (Delete i)
  with assms have "i \<in> F" by simp
  then have "filter (\<lambda>r. att_id r \<notin> F) (filter (\<lambda>r. att_id r \<noteq> i) (att_rows t))
               = filter (\<lambda>r. att_id r \<notin> F) (att_rows t)"
    by (auto intro: filter_cong)
  with Delete show ?thesis by simp
next
  case (Insert a b c d e)
  with assms show ?thesis by simp
next
  case (Update i a b c d e)
  with assms have "i \<in> F" by simp
  then have "filter (\<lambda>r. att_id r \<notin> F)
               (map (\<lambda>r. if att_id r = i
                          then r\<lparr>att_full_name := a, att_reg_no := b, att_date := c, att_time := d, att_status := e\<rparr>
                          else r) (att_rows t))
             = filter (\<lambda>r. att_id r \<notin> F) (att_rows t)"
    by (rule filter_update_outside) simp
  with Update show ?thesis by simp
qed

lemma fold_exec_frame:
  "\<forall>s \<in> set ss. (case s of Delete i \<Rightarrow> i \<in> F | Update i a b c d e \<Rightarrow> i \<in> F | Insert a b c d e \<Rightarrow> False)
     \<Longrightarrow> filter (\<lambda>r. att_id r \<notin> F) (att_rows (fold exec_stmt ss t))
           = filter (\<lambda>r. att_id r \<notin> F) (att_rows t)"
  by (induction ss arbitrary: t) (simp_all add: exec_stmt_frame)

lemma distinct_singleton_list: "distinct xs \<Longrightarrow> set xs = {a} \<Longrightarrow> xs = [a]"
proof (cases xs)
  case Nil
  assume "set xs = {a}"
  with Nil show ?thesis by simp
next
  case (Cons x ys)
  assume d: "distinct xs" and s: "set xs = {a}"
  from s Cons have x: "x = a" by auto
  from s Cons have "set ys \<subseteq> {a}" by auto
  moreover from d Cons x have "a \<notin> set ys" by simp
  ultimately have "ys = []" by (cases ys) auto
  with x Cons show ?thesis by simp
qed

lemma length_filter_remove_one:
  "distinct xs \<Longrightarrow> x \<in> set xs \<Longrightarrow> length (filter (\<lambda>r. r \<noteq> x) xs) = length xs - 1"
proof (induction xs)
  case Nil
  then show ?case by simp
next
  case (Cons y ys)
  show ?case
  proof (cases "y = x")
    case True
    with Cons.prems have "x \<notin> set ys" by simp
    then have "filter (\<lambda>r. r \<noteq> x) ys = ys" by (simp add: filter_id_conv) blast
    with True show ?thesis by simp
  next
    case False
    with Cons.prems have "x \<in> set ys" "distinct ys" by simp_all
    with Cons.IH have "length (filter (\<lambda>r. r \<noteq> x) ys) = length ys - 1" by simp
    moreover from \<open>x \<in> set ys\<close> have "length ys \<noteq> 0" by auto
    ultimately show ?thesis using False by simp
  qed
qed

lemma ids_after_of_rows:
  "(\<And>r. df_id (h r) = Some (att_id r)) \<Longrightarrow>
     concat (map (\<lambda>row. case df_id row of None \<Rightarrow> [] | Some i \<Rightarrow> [i]) (map h rows)) = map att_id rows"
  by (induction rows) simp_all

lemma count_stmts_of_rows:
  assumes "\<And>r. df_id (h r) = Some (att_id r)"
  shows "count_updates (map row_stmt (map h rows)) = length rows"
    and "count_deletes (map row_stmt (map h rows)) = 0"
    and "count_inserts (map row_stmt (map h rows)) = 0"
  using assms by (induction rows) (simp_all add: count_updates_def count_deletes_def count_inserts_def row_stmt_def)

section \<open>Facts about the recognition loop\<close>















lemma replace_append: "py_replace_char a b (xs @ ys) = py_replace_char a b xs @ py_replace_char a b ys"
  by (simp add: py_replace_char_def)









lemma ex_store_values:
  "store_of ex_students = [(''ahmad_mahmoud_kraiem_20201001.npy'', [1, 5]), (''sara_ali_hasan_20201002.npy'', [9])]"
  "store_of ex_spaced = [(''ahmad_mahmoud_kraiem_2020 1001.npy'', [1, 5])]"
  by code_simp+

lemma decode_examples:
  "decode_identifier ''ahmad_mahmoud_kraiem_20201001'' = Inr (''ahmad mahmoud kraiem'', ''20201001'')"
  "decode_identifier ''sara_ali_hasan_20201002'' = Inr (''sara ali hasan'', ''20201002'')"
  "decode_identifier ''ahmad_mahmoud_kraiem_2020 1001'' = Inr (''ahmad mahmoud kraiem'', ''2020 1001'')"
  by code_simp+

lemma file_examples:
  "py_endswith ''ahmad_mahmoud_kraiem_20201001.npy'' ''.npy''"
  "remove_npy ''ahmad_mahmoud_kraiem_20201001.npy'' = ''ahmad_mahmoud_kraiem_20201001''"
  "py_endswith ''sara_ali_hasan_20201002.npy'' ''.npy''"
  "remove_npy ''sara_ali_hasan_20201002.npy'' = ''sara_ali_hasan_20201002''"
  "py_endswith ''ahmad_mahmoud_kraiem_2020 1001.npy'' ''.npy''"
  "remove_npy ''ahmad_mahmoud_kraiem_2020 1001.npy'' = ''ahmad_mahmoud_kraiem_2020 1001''"
  by code_simp+

lemma ex_known_loaded: "load_known_faces (store_of ex_students) = Inr ex_known"
  by (simp add: ex_store_values load_known_faces_def file_examples decode_examples no_known_def
        ex_known_def)





section \<open>Facts about enrollment\<close>

lemma capture_frame_accepted:
  "accepted c = length (encodings c) \<Longrightarrow>
     accepted (capture_frame f c) = length (encodings (capture_frame f c))"
  by (simp add: capture_frame_def Let_def split: option.splits)

lemma capture_loop_accepted:
  "accepted c = length (encodings c) \<Longrightarrow>
     accepted (capture_loop n fs c) = length (encodings (capture_loop n fs c))"
  by (induction fs arbitrary: c) (simp_all add: Let_def capture_frame_accepted)

lemma run_camera_accepted: "accepted (run_camera inp) = length (encodings (run_camera inp))"
  by (cases "in_camera inp") (simp_all add: run_camera_def start_capture_def capture_loop_accepted)

lemma name_valid_nonempty: "name_valid s \<Longrightarrow> s \<noteq> []"
  by (auto simp: name_valid_def)

lemma normalize_folder_name_cong:
  "py_lower (py_strip a) = py_lower (py_strip b) \<Longrightarrow>
     normalize_folder_name a r = normalize_folder_name b r"
  by (simp add: normalize_folder_name_def)

lemma find_after_filter_out: "find P (filter (\<lambda>x. \<not> P x) xs @ ys) = find P ys"
  by (induction xs) simp_all

lemma select_after_insert_or_replace:
  "select_student_by_reg reg (insert_or_replace_student n reg folder cnt d tbl)
     = Some \<lparr>stu_id = Suc (fold max (map stu_id (stu_rows tbl)) (stu_seq tbl)),
             stu_full_name = n, stu_reg_no = reg, stu_folder_name = folder,
             stu_image_count = cnt, stu_registration_date = d\<rparr>"
  using find_after_filter_out[of "\<lambda>s. stu_reg_no s = reg" "stu_rows tbl"]
  by (simp add: select_student_by_reg_def insert_or_replace_student_def Let_def)

lemma select_student_reg: "select_student_by_reg reg tbl = Some row \<Longrightarrow> stu_reg_no row = reg"
  by (auto simp: select_student_by_reg_def find_Some_iff)

lemma reenroll_allowed:
  assumes "select_student_by_reg (py_strip (in_registration_number inp)) (students st) = Some row"
    and "py_lower (py_strip (stu_full_name row)) = py_lower (py_strip (in_student_name inp))"
    and "name_valid (in_student_name inp)"
    and "py_strip (in_registration_number inp) \<noteq> []"
    and "allow_capture_flag st"
  shows "allow_capture inp st"
  using assms name_valid_nonempty[OF assms(3)]
  by (simp add: allow_capture_def existing_row_def matched_existing_name_def Let_def)

lemma enroll_page_capture:
  assumes "allow_capture inp st" and "in_capture_button inp"
  shows "fst (enroll_page inp st)
           = fst (register_capture (in_student_name inp) (py_strip (in_registration_number inp))
                    (in_today inp) (run_camera inp) st)"
  using assms by (simp add: enroll_page_def Let_def)

lemma register_capture_saved:
  assumes "encodings c \<noteq> []"
  shows "fst (register_capture name reg today c st)
     = st\<lparr>students := insert_or_replace_student (py_lower (py_strip name)) reg
                          (normalize_folder_name name reg)
                          ((case select_student_by_reg reg (students st) of
                              Some row \<Rightarrow> stu_image_count row | None \<Rightarrow> 0) + accepted c)
                          today (students st),
           encoding_store := AList.update (normalize_folder_name name reg @ ''.npy'')
                               (case map_of (encoding_store st) (normalize_folder_name name reg @ ''.npy'') of
                                  Some old_encodings \<Rightarrow> old_encodings @ encodings c
                                | None \<Rightarrow> encodings c)
                               (encoding_store st),
           capture_stats := Some c\<rparr>"
  using assms by (simp add: register_capture_def Let_def)

text \<open>
  A first enrollment on 2025-03-01 with two accepted frames, the confirmation
  ("Continue Anyway"), and what the examples below start from.
\<close>

lemma ex_enrolled_value:
  "students ex_enrolled = \<lparr>stu_rows = [ex_row], stu_seq = 1\<rparr>
   \<and> encoding_store ex_enrolled = [(''ahmad_mahmoud_kraiem_20201001.npy'', [1, 2])]
   \<and> allow_capture_flag ex_enrolled"
  by code_simp

lemma ex_again_value:
  "students (fst (enroll_page ex_again ex_enrolled))
     = \<lparr>stu_rows = [\<lparr>stu_id = 2, stu_full_name = ''ahmad mahmoud kraiem'', stu_reg_no = ''20201001'',
                      stu_folder_name = ''ahmad_mahmoud_kraiem_20201001'', stu_image_count = 4,
                      stu_registration_date = ''2025-03-02''\<rparr>],
         stu_seq = 2\<rparr>
   \<and> encoding_store (fst (enroll_page ex_again ex_enrolled))
       = [(''ahmad_mahmoud_kraiem_20201001.npy'', [1, 2, 3, 4])]"
  by code_simp

lemma ex_again_hyps:
  "select_student_by_reg (py_strip (in_registration_number ex_again)) (students ex_enrolled) = Some ex_row"
  "py_lower (py_strip (stu_full_name ex_row)) = py_lower (py_strip (in_student_name ex_again))"
  "name_valid (in_student_name ex_again)"
  "py_strip (in_registration_number ex_again) \<noteq> []"
  "allow_capture_flag ex_enrolled"
  "in_capture_button ex_again"
  "1 \<le> accepted (run_camera ex_again)"
  by code_simp+

section \<open>The claims\<close>



lemma recognise_frame_example:
  "recognise_frame ex_distance ex_known ex_cfg Delivered ''2025-03-01'' ''09:15:00'' [5.5, 13, 14]
     ([], empty_attendance)
   = Inr ([Recognised ''Ahmad Mahmoud Kraiem'' (1 / 20), Unknown, Unknown],
          ([''Ahmad Mahmoud Kraiem''],
           \<lparr>att_rows = [\<lparr>att_id = 1, att_full_name = ''ahmad mahmoud kraiem'', att_reg_no = ''20201001'',
                          att_date = ''2025-03-01'', att_time = ''09:15:00'', att_status = ''Present''\<rparr>],
            att_seq = 1\<rparr>),
          [Toast ''Attendance marked for ahmad mahmoud kraiem'',
           Warning ''Email not configured. Set EMAIL_SENDER and EMAIL_APP_PASSWORD in .env to enable notifications.''])"
  by code_simp


text \<open>
  C2, as amended. In every state reached from the empty table by any sequence of
  \<open>mark_attendance\<close>, today's report (the Absent records) and status toggles, with
  edit/save left out, the table holds at most one record, and so at most one Present
  record, for a full name and a date, however often recognition fires.
\<close>

theorem one_record_per_day_without_save:
  assumes "\<forall>op \<in> set ops. \<not> is_save op"
  shows "length (filter (\<lambda>r. att_full_name r = full_name \<and> att_date r = d)
                  (att_rows (run_ops ops empty_attendance))) \<le> 1
       \<and> length (present_records full_name d (run_ops ops empty_attendance)) \<le> 1"
proof -
  have "per_day_unique empty_attendance"
    by (simp add: per_day_unique_def empty_attendance_def)
  with assms have "per_day_unique (run_ops ops empty_attendance)"
    by (rule per_day_unique_run_ops)
  then have d: "distinct (map (\<lambda>r. (att_full_name r, att_date r)) (att_rows (run_ops ops empty_attendance)))"
    by (simp add: per_day_unique_def)
  from distinct_key_filter_le_1[OF d, of "(full_name, d)" "\<lambda>r. True"]
  have 1: "length (filter (\<lambda>r. att_full_name r = full_name \<and> att_date r = d)
                  (att_rows (run_ops ops empty_attendance))) \<le> 1"
    by simp
  from distinct_key_filter_le_1[OF d, of "(full_name, d)" "\<lambda>r. att_status r = ''Present''"]
  have 2: "length (present_records full_name d (run_ops ops empty_attendance)) \<le> 1"
    by (simp add: present_records_def conj_assoc)
  from 1 2 show ?thesis by simp
qed

theorem one_record_per_day_without_save_witness:
  "length (filter (\<lambda>r. att_full_name r = ''a b c'' \<and> att_date r = ''2025-03-01'')
             (att_rows (run_ops ex_ops_without_save empty_attendance))) \<le> 1
   \<and> length (present_records ''a b c'' ''2025-03-01'' (run_ops ex_ops_without_save empty_attendance)) \<le> 1"
  by (rule one_record_per_day_without_save) (simp add: ex_ops_without_save_def)

lemma ex_ops_without_save_value:
  "run_ops ex_ops_without_save empty_attendance
     = \<lparr>att_rows = [\<lparr>att_id = 1, att_full_name = ''a b c'', att_reg_no = ''1'',
                      att_date = ''2025-03-01'', att_time = ''09:15:00'', att_status = ''Absent''\<rparr>],
         att_seq = 1\<rparr>"
  by code_simp

text \<open>
  C2 as stated fails with edit/save among the operations: the handler inserts every row
  the operator added, with no check. After one recognition, saving the view with one
  added row for the same student and day leaves two Present records.
\<close>

theorem two_present_records_after_save_counterexample:
  "present_records ''a b c'' ''2025-03-01'' (run_ops ex_ops_with_save empty_attendance)
     = [ex_present,
        \<lparr>att_id = 2, att_full_name = ''a b c'', att_reg_no = ''1'', att_date = ''2025-03-01'',
         att_time = ''10:00:00'', att_status = ''Present''\<rparr>]
   \<and> \<not> length (present_records ''a b c'' ''2025-03-01'' (run_ops ex_ops_with_save empty_attendance)) \<le> 1"
  by code_simp

text \<open>
  C3, as amended. When the full names of the registry are pairwise distinct, the students
  with a Present record for today are registered, and no registered student without a
  Present record has any record for today, one run of today's report appends exactly \<open>S - P\<close>
  records (\<open>S\<close> the size of the registry, \<open>P\<close> the number of students present today),
  each with the time \<open>-\<close>, the status Absent and today's date, and leaves the records
  that were there as they were. A second run for the same date leaves the table as the
  first run left it.
\<close>

theorem absent_synthesis_count:
  assumes "distinct (map stu_full_name (stu_rows tbl))"
    and "set (get_today_present today t) \<subseteq> set (get_registered_students tbl)"
    and "\<forall>n \<in> set (get_registered_students tbl).
           n \<notin> set (get_today_present today t) \<longrightarrow> select_name_date n today t = None"
  shows "(\<exists>new. att_rows (fst (view_today_report today tbl t)) = att_rows t @ new
            \<and> length new = length (stu_rows tbl) - length (get_today_present today t)
            \<and> (\<forall>r \<in> set new. att_time r = ''-'' \<and> att_status r = ''Absent'' \<and> att_date r = today))
       \<and> fst (view_today_report today tbl (fst (view_today_report today tbl t)))
           = fst (view_today_report today tbl t)"
proof -
  let ?all = "get_registered_students tbl"
  let ?present = "get_today_present today t"
  let ?absent = "absent_of ?all ?present"
  have d_all: "distinct ?all" using assms(1) by (simp add: get_registered_students_def)
  have len_all: "length ?all = length (stu_rows tbl)" by (simp add: get_registered_students_def)
  have len_abs: "length ?absent = length (stu_rows tbl) - length ?present"
    using absent_of_length[OF d_all get_today_present_distinct assms(2)] len_all by simp
  have no_record: "select_name_date n today t = None" if n: "n \<in> set ?absent" for n
  proof -
    from n have "n \<in> set ?all" and "n \<notin> set ?present"
      by (simp_all add: absent_of_set)
    with assms(3) show ?thesis by blast
  qed
  then have all_new: "filter (\<lambda>n. select_name_date n today t = None) ?absent = ?absent"
    by (simp add: filter_id_conv)
  have len: "length (att_rows (absent_loop today tbl ?absent t)) = length (att_rows t) + length ?absent"
    using absent_loop_length[OF absent_of_distinct, of today tbl ?all ?present t] all_new by simp
  from absent_loop_appends[of today tbl ?absent t] obtain new where
    new: "att_rows (absent_loop today tbl ?absent t) = att_rows t @ new"
      "\<forall>r \<in> set new. att_time r = ''-'' \<and> att_status r = ''Absent'' \<and> att_date r = today
                \<and> att_full_name r \<in> set ?absent" by blast
  from len new(1) have "length new = length ?absent" by simp
  with len_abs have "length new = length (stu_rows tbl) - length ?present" by simp
  with new have "\<exists>new. att_rows (fst (view_today_report today tbl t)) = att_rows t @ new
            \<and> length new = length (stu_rows tbl) - length (get_today_present today t)
            \<and> (\<forall>r \<in> set new. att_time r = ''-'' \<and> att_status r = ''Absent'' \<and> att_date r = today)"
    by (auto simp: view_today_report_def Let_def)
  then show ?thesis using report_idempotent[of today tbl t] by simp
qed

theorem absent_synthesis_count_witness:
  "(\<exists>new. att_rows (fst (view_today_report ''2025-03-01'' ex_registry ex_one_present))
             = att_rows ex_one_present @ new
         \<and> length new = 3 - 1
         \<and> (\<forall>r \<in> set new. att_time r = ''-'' \<and> att_status r = ''Absent'' \<and> att_date r = ''2025-03-01''))
   \<and> fst (view_today_report ''2025-03-01'' ex_registry
             (fst (view_today_report ''2025-03-01'' ex_registry ex_one_present)))
       = fst (view_today_report ''2025-03-01'' ex_registry ex_one_present)"
proof -
  have 1: "distinct (map stu_full_name (stu_rows ex_registry))"
    by code_simp
  have 2: "set (get_today_present ''2025-03-01'' ex_one_present) \<subseteq> set (get_registered_students ex_registry)"
    by code_simp
  have 3: "\<forall>n \<in> set (get_registered_students ex_registry).
             n \<notin> set (get_today_present ''2025-03-01'' ex_one_present)
               \<longrightarrow> select_name_date n ''2025-03-01'' ex_one_present = None"
    by code_simp
  have s: "length (stu_rows ex_registry) = 3" by code_simp
  have p: "length (get_today_present ''2025-03-01'' ex_one_present) = 1" by code_simp
  from absent_synthesis_count[OF 1 2 3] show ?thesis
    unfolding s p .
qed

lemma absent_synthesis_example:
  "fst (view_today_report ''2025-03-01'' ex_registry ex_one_present)
   = \<lparr>att_rows =
          [\<lparr>att_id = 1, att_full_name = ''d e f'', att_reg_no = ''2'', att_date = ''2025-03-01'',
            att_time = ''09:15:00'', att_status = ''Present''\<rparr>,
           \<lparr>att_id = 2, att_full_name = ''a b c'', att_reg_no = ''1'', att_date = ''2025-03-01'',
            att_time = ''-'', att_status = ''Absent''\<rparr>,
           \<lparr>att_id = 3, att_full_name = ''g h i'', att_reg_no = ''3'', att_date = ''2025-03-01'',
            att_time = ''-'', att_status = ''Absent''\<rparr>],
         att_seq = 3\<rparr>"
  by code_simp

text \<open>
  C3 as stated fails when a registered student has a record for today that is not
  Present: the loop inserts only for a name with no record at all for the day. With one
  registered student, marked Present and then toggled to Absent, \<open>S = 1\<close> and \<open>P = 0\<close>,
  and the report inserts nothing.
\<close>

theorem absent_synthesis_count_counterexample:
  "ex_toggled
     = \<lparr>att_rows = [\<lparr>att_id = 1, att_full_name = ''a b c'', att_reg_no = ''1'',
                      att_date = ''2025-03-01'', att_time = ''09:15:00'', att_status = ''Absent''\<rparr>],
         att_seq = 1\<rparr>
   \<and> length (stu_rows ex_registry_one) = 1
   \<and> length (get_today_present ''2025-03-01'' ex_toggled) = 0
   \<and> fst (view_today_report ''2025-03-01'' ex_registry_one ex_toggled) = ex_toggled
   \<and> length (att_rows (fst (view_today_report ''2025-03-01'' ex_registry_one ex_toggled)))
         - length (att_rows ex_toggled) \<noteq> 1 - 0"
  by code_simp

text \<open>
  C4. Re-enrollment of a registered student: the registration number is in the registry,
  the name typed matches the stored name (after \<open>strip().lower()\<close>), the operator has
  confirmed, the capture button is pressed and the session accepts \<open>k \<ge> 1\<close> frames. Then
  the file of the Encoding Store for the student holds afterwards what it held before
  followed by the \<open>k\<close> new vectors, the registry row of the registration number has the
  prior \<open>image_count\<close> plus \<open>k\<close>, the file is the one named by the stored name and number,
  and no other file of the store changes.
\<close>

theorem reenrollment_appends:
  assumes "select_student_by_reg (py_strip (in_registration_number inp)) (students st) = Some row"
    and "py_lower (py_strip (stu_full_name row)) = py_lower (py_strip (in_student_name inp))"
    and "name_valid (in_student_name inp)"
    and "py_strip (in_registration_number inp) \<noteq> []"
    and "allow_capture_flag st"
    and "in_capture_button inp"
    and "1 \<le> accepted (run_camera inp)"
  shows "map_of (encoding_store (fst (enroll_page inp st)))
             (normalize_folder_name (in_student_name inp) (py_strip (in_registration_number inp)) @ ''.npy'')
           = Some ((case map_of (encoding_store st)
                           (normalize_folder_name (in_student_name inp) (py_strip (in_registration_number inp)) @ ''.npy'') of
                      None \<Rightarrow> [] | Some old_encodings \<Rightarrow> old_encodings)
                   @ encodings (run_camera inp))
       \<and> length (encodings (run_camera inp)) = accepted (run_camera inp)
       \<and> (\<exists>row'. select_student_by_reg (py_strip (in_registration_number inp)) (students (fst (enroll_page inp st)))
                     = Some row'
                 \<and> stu_image_count row' = stu_image_count row + accepted (run_camera inp))
       \<and> normalize_folder_name (in_student_name inp) (py_strip (in_registration_number inp))
           = normalize_folder_name (stu_full_name row) (stu_reg_no row)
       \<and> (\<forall>p. p \<noteq> normalize_folder_name (in_student_name inp) (py_strip (in_registration_number inp)) @ ''.npy''
              \<longrightarrow> map_of (encoding_store (fst (enroll_page inp st))) p = map_of (encoding_store st) p)"
proof -
  let ?reg = "py_strip (in_registration_number inp)"
  let ?c = "run_camera inp"
  have allowed: "allow_capture inp st" using assms(1-5) by (rule reenroll_allowed)
  have len: "length (encodings ?c) = accepted ?c" by (simp add: run_camera_accepted)
  with assms(7) have ne: "encodings ?c \<noteq> []" by auto
  have st': "fst (enroll_page inp st) = fst (register_capture (in_student_name inp) ?reg (in_today inp) ?c st)"
    using allowed assms(6) by (rule enroll_page_capture)
  note saved = register_capture_saved[OF ne, of "in_student_name inp" ?reg "in_today inp" st]
  have store: "map_of (encoding_store (fst (enroll_page inp st)))
             (normalize_folder_name (in_student_name inp) ?reg @ ''.npy'')
           = Some ((case map_of (encoding_store st) (normalize_folder_name (in_student_name inp) ?reg @ ''.npy'') of
                      None \<Rightarrow> [] | Some old_encodings \<Rightarrow> old_encodings) @ encodings ?c)"
    by (simp add: st' saved update_conv' split: option.splits)
  have others: "\<forall>p. p \<noteq> normalize_folder_name (in_student_name inp) ?reg @ ''.npy''
              \<longrightarrow> map_of (encoding_store (fst (enroll_page inp st))) p = map_of (encoding_store st) p"
    by (simp add: st' saved update_conv')
  have count: "\<exists>row'. select_student_by_reg ?reg (students (fst (enroll_page inp st))) = Some row'
                 \<and> stu_image_count row' = stu_image_count row + accepted ?c"
    by (simp add: st' saved select_after_insert_or_replace assms(1))
  have folder: "normalize_folder_name (in_student_name inp) ?reg
                  = normalize_folder_name (stu_full_name row) (stu_reg_no row)"
    using normalize_folder_name_cong[OF assms(2), of ?reg] select_student_reg[OF assms(1)] by simp
  from store len count folder others show ?thesis by blast
qed

theorem reenrollment_appends_witness:
  "map_of (encoding_store (fst (enroll_page ex_again ex_enrolled))) ''ahmad_mahmoud_kraiem_20201001.npy''
     = Some ([1, 2] @ [3, 4])
   \<and> accepted (run_camera ex_again) = 2
   \<and> (\<exists>row'. select_student_by_reg ''20201001'' (students (fst (enroll_page ex_again ex_enrolled))) = Some row'
         \<and> stu_image_count row' = 2 + 2)"
proof -
  have path: "normalize_folder_name (in_student_name ex_again) ''20201001'' @ ''.npy''
                = ''ahmad_mahmoud_kraiem_20201001.npy''" by code_simp
  have reg: "py_strip (in_registration_number ex_again) = ''20201001''" by code_simp
  have old: "map_of (encoding_store ex_enrolled) ''ahmad_mahmoud_kraiem_20201001.npy'' = Some [1, 2]" by code_simp
  have new: "encodings (run_camera ex_again) = [3, 4]" by code_simp
  have k: "accepted (run_camera ex_again) = 2" by code_simp
  have cnt: "stu_image_count ex_row = 2" by code_simp
  from reenrollment_appends[OF ex_again_hyps] show ?thesis
    unfolding path reg old new k cnt by simp
qed

text \<open>
  C5. When the registration number is in the registry under a different name (after
  \<open>strip().lower()\<close>), a run of the page returns the state as it was: no write to the
  registry or to the Encoding Store, and with a valid name and a registration number the
  only message is the conflict error. When the session accepts no frame, the registry and
  the Encoding Store are as they were, and a capture that was started reports
  "No face encodings captured." and leaves the whole state unchanged.
\<close>

theorem rejected_enrollment_writes_nothing:
  "(select_student_by_reg (py_strip (in_registration_number inp)) (students st) = Some row
      \<and> py_lower (py_strip (stu_full_name row)) \<noteq> py_lower (py_strip (in_student_name inp))
    \<longrightarrow> fst (enroll_page inp st) = st
        \<and> (name_valid (in_student_name inp) \<and> py_strip (in_registration_number inp) \<noteq> []
             \<longrightarrow> snd (enroll_page inp st)
                   = [Error ''This registration number is already used by another student.'']))
   \<and> (accepted (run_camera inp) = 0
    \<longrightarrow> students (fst (enroll_page inp st)) = students st
        \<and> encoding_store (fst (enroll_page inp st)) = encoding_store st
        \<and> (allow_capture inp st \<and> in_capture_button inp
             \<longrightarrow> fst (enroll_page inp st) = st
                 \<and> Error ''No face encodings captured.'' \<in> set (snd (enroll_page inp st))))"
proof (intro conjI impI)
  assume a: "select_student_by_reg (py_strip (in_registration_number inp)) (students st) = Some row
      \<and> py_lower (py_strip (stu_full_name row)) \<noteq> py_lower (py_strip (in_student_name inp))"
  then have not_allowed: "\<not> allow_capture inp st"
    by (auto simp: allow_capture_def existing_row_def matched_existing_name_def Let_def)
  then show "fst (enroll_page inp st) = st"
    using a by (auto simp: enroll_page_def Let_def existing_row_def matched_existing_name_def)
  assume "name_valid (in_student_name inp) \<and> py_strip (in_registration_number inp) \<noteq> []"
  then show "snd (enroll_page inp st) = [Error ''This registration number is already used by another student.'']"
    using a not_allowed by (auto simp: enroll_page_def Let_def existing_row_def matched_existing_name_def)
next
  assume z: "accepted (run_camera inp) = 0"
  then have none: "encodings (run_camera inp) = []"
    using run_camera_accepted[of inp] by simp
  then have reg: "\<And>n r d. register_capture n r d (run_camera inp) st = (st, [Error ''No face encodings captured.''])"
    by (simp add: register_capture_def Let_def)
  show "students (fst (enroll_page inp st)) = students st"
    by (simp add: enroll_page_def Let_def reg)
  show "encoding_store (fst (enroll_page inp st)) = encoding_store st"
    by (simp add: enroll_page_def Let_def reg)
  assume "allow_capture inp st \<and> in_capture_button inp"
  then show "fst (enroll_page inp st) = st"
    and "Error ''No face encodings captured.'' \<in> set (snd (enroll_page inp st))"
    by (simp_all add: enroll_page_def Let_def reg)
qed

theorem rejected_enrollment_writes_nothing_witness:
  "fst (enroll_page ex_conflict ex_enrolled) = ex_enrolled
   \<and> snd (enroll_page ex_conflict ex_enrolled)
       = [Error ''This registration number is already used by another student.'']
   \<and> fst (enroll_page ex_nothing ex_enrolled) = ex_enrolled
   \<and> Error ''No face encodings captured.'' \<in> set (snd (enroll_page ex_nothing ex_enrolled))"
proof -
  have 1: "select_student_by_reg (py_strip (in_registration_number ex_conflict)) (students ex_enrolled) = Some ex_row
      \<and> py_lower (py_strip (stu_full_name ex_row)) \<noteq> py_lower (py_strip (in_student_name ex_conflict))"
    by code_simp
  have 2: "name_valid (in_student_name ex_conflict) \<and> py_strip (in_registration_number ex_conflict) \<noteq> []"
    by code_simp
  have 3: "accepted (run_camera ex_nothing) = 0" by code_simp
  have 4: "allow_capture ex_nothing ex_enrolled \<and> in_capture_button ex_nothing" by code_simp
  from rejected_enrollment_writes_nothing[of ex_conflict ex_enrolled ex_row] 1 2
  have a: "fst (enroll_page ex_conflict ex_enrolled) = ex_enrolled
         \<and> snd (enroll_page ex_conflict ex_enrolled)
             = [Error ''This registration number is already used by another student.'']"
    by blast
  from rejected_enrollment_writes_nothing[of ex_nothing ex_enrolled ex_row] 3 4
  have b: "fst (enroll_page ex_nothing ex_enrolled) = ex_enrolled
         \<and> Error ''No face encodings captured.'' \<in> set (snd (enroll_page ex_nothing ex_enrolled))"
    by blast
  from a b show ?thesis by simp
qed

text \<open>
  C6, as amended. A filtered view of three records (distinct ids, all held by the
  snapshot \<open>original_data\<close>), from which the operator deletes one row, edits the status
  of another and leaves the third: saving executes one DELETE, for the deleted row, then
  one UPDATE for each of the two rows that remain (the unchanged row is rewritten with its
  own values), and no INSERT. The records of the table whose id is not in the view are
  left as they were.
\<close>

theorem save_one_delete_two_updates:
  assumes "length filtered_df = 3"
    and "distinct (map att_id filtered_df)"
    and "set (map att_id filtered_df) \<subseteq> set (map att_id original_data)"
    and "deleted \<in> set filtered_df" and "edited \<in> set filtered_df" and "deleted \<noteq> edited"
    and "current = map (\<lambda>r. if r = edited then (to_df_row r)\<lparr>df_status := new_status\<rparr> else to_df_row r)
                     (filter (\<lambda>r. r \<noteq> deleted) filtered_df)"
  shows "\<exists>t' stmts eff.
           save_changes True True original_data filtered_df current t = Inr (t', stmts, eff)
         \<and> stmts = Delete (att_id deleted) # map row_stmt current
         \<and> count_deletes stmts = 1 \<and> count_updates stmts = 2 \<and> count_inserts stmts = 0
         \<and> filter (\<lambda>r. att_id r \<notin> set (map att_id filtered_df)) (att_rows t')
             = filter (\<lambda>r. att_id r \<notin> set (map att_id filtered_df)) (att_rows t)"
proof -
  let ?F = "set (map att_id filtered_df)"
  let ?h = "\<lambda>r. if r = edited then (to_df_row r)\<lparr>df_status := new_status\<rparr> else to_df_row r"
  let ?kept = "filter (\<lambda>r. r \<noteq> deleted) filtered_df"
  have h_id: "\<And>r. df_id (?h r) = Some (att_id r)" by (simp add: to_df_row_def)
  have cur: "current = map ?h ?kept" by (rule assms(7))
  have d_rows: "distinct filtered_df" using assms(2) by (rule distinct_map[THEN iffD1, THEN conjunct1])
  have inj: "inj_on att_id (set filtered_df)" using assms(2) by (simp add: distinct_map)
  have ids_after: "concat (map (\<lambda>row. case df_id row of None \<Rightarrow> [] | Some i \<Rightarrow> [i]) current) = map att_id ?kept"
    unfolding cur using h_id by (rule ids_after_of_rows)
  have set_after: "set (map att_id ?kept) = ?F - {att_id deleted}"
  proof
    show "set (map att_id ?kept) \<subseteq> ?F - {att_id deleted}"
      using inj assms(4) by (auto dest: inj_onD)
    show "?F - {att_id deleted} \<subseteq> set (map att_id ?kept)" by auto
  qed
  have set_before: "set (remdups (map att_id (filter (\<lambda>r. att_id r \<in> ?F) original_data))) = ?F"
  proof
    show "set (remdups (map att_id (filter (\<lambda>r. att_id r \<in> ?F) original_data))) \<subseteq> ?F"
      by auto
    show "?F \<subseteq> set (remdups (map att_id (filter (\<lambda>r. att_id r \<in> ?F) original_data)))"
    proof
      fix i
      assume i: "i \<in> ?F"
      with assms(3) have "i \<in> set (map att_id original_data)" by blast
      then obtain y where "y \<in> set original_data" "att_id y = i" by auto
      with i show "i \<in> set (remdups (map att_id (filter (\<lambda>r. att_id r \<in> ?F) original_data)))"
        by force
    qed
  qed
  let ?del = "filter (\<lambda>i. i \<notin> set (map att_id ?kept))
                (remdups (map att_id (filter (\<lambda>r. att_id r \<in> ?F) original_data)))"
  have "distinct ?del" by simp
  moreover have "set ?del = {att_id deleted}"
    using set_before set_after assms(4) by auto
  ultimately have del: "?del = [att_id deleted]" by (rule distinct_singleton_list)
  have stmts: "save_statements original_data filtered_df current = Delete (att_id deleted) # map row_stmt current"
    using del by (simp add: save_statements_def Let_def ids_after)
  have len_kept: "length ?kept = 2"
    using length_filter_remove_one[OF d_rows assms(4)] assms(1) by simp
  have cu: "count_updates (Delete (att_id deleted) # map row_stmt current) = 2"
    using count_stmts_of_rows(1)[of ?h ?kept, OF h_id] len_kept
    by (simp add: cur count_updates_def)
  have cd: "count_deletes (Delete (att_id deleted) # map row_stmt current) = 1"
    using count_stmts_of_rows(2)[of ?h ?kept, OF h_id]
    by (simp add: cur count_deletes_def)
  have ci: "count_inserts (Delete (att_id deleted) # map row_stmt current) = 0"
    using count_stmts_of_rows(3)[of ?h ?kept, OF h_id]
    by (simp add: cur count_inserts_def)
  have within: "\<forall>s \<in> set (Delete (att_id deleted) # map row_stmt current).
                  (case s of Delete i \<Rightarrow> i \<in> ?F | Update i a b c d e \<Rightarrow> i \<in> ?F | Insert a b c d e \<Rightarrow> False)"
    using assms(4) by (auto simp: cur row_stmt_def to_df_row_def)
  have frame: "filter (\<lambda>r. att_id r \<notin> ?F) (att_rows (fold exec_stmt (Delete (att_id deleted) # map row_stmt current) t))
             = filter (\<lambda>r. att_id r \<notin> ?F) (att_rows t)"
    using within by (rule fold_exec_frame)
  have ne: "filtered_df \<noteq> []" using assms(1) by auto
  have "save_changes True True original_data filtered_df current t
          = Inr (fold exec_stmt (Delete (att_id deleted) # map row_stmt current) t,
                 Delete (att_id deleted) # map row_stmt current,
                 [Success ''Changes saved successfully.''])"
    using ne by (simp add: save_changes_def stmts)
  with cd cu ci frame show ?thesis by blast
qed

theorem save_one_delete_two_updates_witness:
  "\<exists>t' stmts eff.
     save_changes True True (att_rows ex_table) [ex_deleted, ex_edited, ex_unchanged] ex_current ex_table
       = Inr (t', stmts, eff)
   \<and> stmts = Delete (att_id ex_deleted) # map row_stmt ex_current
   \<and> count_deletes stmts = 1 \<and> count_updates stmts = 2 \<and> count_inserts stmts = 0
   \<and> filter (\<lambda>r. att_id r \<notin> set (map att_id [ex_deleted, ex_edited, ex_unchanged])) (att_rows t')
     = filter (\<lambda>r. att_id r \<notin> set (map att_id [ex_deleted, ex_edited, ex_unchanged])) (att_rows ex_table)"
  by (rule save_one_delete_two_updates [where edited = ex_edited and new_status = "''Absent''"])
     (simp_all add: ex_table_def ex_current_def ex_outside_def ex_deleted_def ex_edited_def
        ex_unchanged_def)

text \<open>
  C6 as stated fails on the number of UPDATE statements: the handler updates every row
  of the edited frame that has an id, so the row left unchanged is updated too. On a table
  of four records with three in the view, the statements are one DELETE and two UPDATEs.
\<close>

theorem save_two_updates_counterexample:
  "save_changes True True (att_rows ex_table) [ex_deleted, ex_edited, ex_unchanged] ex_current ex_table
   = Inr (\<lparr>att_rows = [ex_outside, ex_edited\<lparr>att_status := ''Absent''\<rparr>, ex_unchanged], att_seq = 4\<rparr>,
          [Delete 2,
           Update 3 ''d e f'' ''2'' ''2025-03-01'' ''09:20:00'' ''Absent'',
           Update 4 ''g h i'' ''3'' ''2025-03-01'' ''-'' ''Absent''],
          [Success ''Changes saved successfully.''])
   \<and> count_updates (save_statements (att_rows ex_table) [ex_deleted, ex_edited, ex_unchanged] ex_current) = 2
   \<and> count_updates (save_statements (att_rows ex_table) [ex_deleted, ex_edited, ex_unchanged] ex_current) \<noteq> 1"
  by code_simp

text \<open>
  C7. What the code does on a re-enrollment (the hypotheses of C4): \<open>INSERT OR REPLACE\<close>
  replaces the whole row, so the row of the registration number afterwards carries the
  date of the re-enrollment as its \<open>registration_date\<close>, whatever the date of the first
  insert was, and a fresh \<open>id\<close>. The claim that the date is never changed by a later
  re-enrollment does not hold of the code: in the example the student registered on
  2025-03-01 shows 2025-03-02 after adding images on that day.
\<close>

theorem reenrollment_resets_registration_date:
  assumes "select_student_by_reg (py_strip (in_registration_number inp)) (students st) = Some row"
    and "py_lower (py_strip (stu_full_name row)) = py_lower (py_strip (in_student_name inp))"
    and "name_valid (in_student_name inp)"
    and "py_strip (in_registration_number inp) \<noteq> []"
    and "allow_capture_flag st"
    and "in_capture_button inp"
    and "1 \<le> accepted (run_camera inp)"
  shows "\<exists>row'. select_student_by_reg (py_strip (in_registration_number inp)) (students (fst (enroll_page inp st)))
                   = Some row'
               \<and> stu_registration_date row' = in_today inp
               \<and> stu_id row' = Suc (fold max (map stu_id (stu_rows (students st))) (stu_seq (students st)))"
proof -
  let ?reg = "py_strip (in_registration_number inp)"
  let ?c = "run_camera inp"
  have allowed: "allow_capture inp st" using assms(1-5) by (rule reenroll_allowed)
  have "length (encodings ?c) = accepted ?c" by (simp add: run_camera_accepted)
  with assms(7) have ne: "encodings ?c \<noteq> []" by auto
  have st': "fst (enroll_page inp st) = fst (register_capture (in_student_name inp) ?reg (in_today inp) ?c st)"
    using allowed assms(6) by (rule enroll_page_capture)
  show ?thesis
    by (simp add: st' register_capture_saved[OF ne] select_after_insert_or_replace)
qed

theorem reenrollment_resets_registration_date_witness:
  "stu_registration_date ex_row = ''2025-03-01''
   \<and> (\<exists>row'. select_student_by_reg ''20201001'' (students (fst (enroll_page ex_again ex_enrolled))) = Some row'
         \<and> stu_registration_date row' = ''2025-03-02'' \<and> stu_id row' = 2)"
proof -
  have reg: "py_strip (in_registration_number ex_again) = ''20201001''" by code_simp
  have today: "in_today ex_again = ''2025-03-02''" by code_simp
  have fresh: "Suc (fold max (map stu_id (stu_rows (students ex_enrolled))) (stu_seq (students ex_enrolled))) = 2"
    by code_simp
  have before: "stu_registration_date ex_row = ''2025-03-01''" by code_simp
  from reenrollment_resets_registration_date[OF ex_again_hyps] before show ?thesis
    unfolding reg today fresh by simp
qed

text \<open>
  C8. For a recognised student with no record yet for today, the table after
  \<open>mark_attendance\<close> is the table with the Present record inserted, whatever the mail
  configuration and whatever the relay does: it holds exactly that one Present record for
  the student and the day. With a credential missing, the notification is skipped with a
  warning (no attempt on the relay, no error); when the delivery raises, the failure is
  shown as an error after the record is written.
\<close>

theorem attendance_write_independent_of_notification:
  assumes "select_name_date full_name today t = None"
  shows "fst (mark_attendance cfg smtp today now full_name reg_no t)
           = insert_attendance full_name reg_no today now ''Present'' t
       \<and> fst (mark_attendance cfg smtp today now full_name reg_no t)
           = fst (mark_attendance cfg' smtp' today now full_name reg_no t)
       \<and> present_records full_name today (fst (mark_attendance cfg smtp today now full_name reg_no t))
           = [\<lparr>att_id = Suc (fold max (map att_id (att_rows t)) (att_seq t)),
               att_full_name = full_name, att_reg_no = reg_no, att_date = today,
               att_time = now, att_status = ''Present''\<rparr>]
       \<and> (\<not> truthy (EMAIL_SENDER cfg) \<or> \<not> truthy (EMAIL_APP_PASSWORD cfg) \<longrightarrow>
            snd (mark_attendance cfg smtp today now full_name reg_no t)
              = [Toast (''Attendance marked for '' @ full_name),
                 Warning ''Email not configured. Set EMAIL_SENDER and EMAIL_APP_PASSWORD in .env to enable notifications.''])
       \<and> (truthy (EMAIL_SENDER cfg) \<and> truthy (EMAIL_APP_PASSWORD cfg) \<longrightarrow>
            snd (mark_attendance cfg (Raised e) today now full_name reg_no t)
              = [Toast (''Attendance marked for '' @ full_name),
                 SmtpAttempt (reg_no @ ''@ses.yu.edu.jo''),
                 Error (''Failed to send email: '' @ e)])"
proof -
  have none: "filter (\<lambda>r. att_full_name r = full_name \<and> att_date r = today \<and> att_status r = ''Present'')
                (att_rows t) = []"
    using assms by (auto simp: select_name_date_None filter_empty_conv)
  have tbl: "\<And>c s. fst (mark_attendance c s today now full_name reg_no t)
               = insert_attendance full_name reg_no today now ''Present'' t"
    using assms by (simp add: mark_attendance_def)
  have eff: "\<And>c s. snd (mark_attendance c s today now full_name reg_no t)
               = Toast (''Attendance marked for '' @ full_name) # send_attendance_email c s full_name reg_no"
    using assms by (simp add: mark_attendance_def)
  have pres: "present_records full_name today (insert_attendance full_name reg_no today now ''Present'' t)
           = [\<lparr>att_id = Suc (fold max (map att_id (att_rows t)) (att_seq t)),
               att_full_name = full_name, att_reg_no = reg_no, att_date = today,
               att_time = now, att_status = ''Present''\<rparr>]"
    using none by (simp add: present_records_def insert_attendance_def Let_def)
  show ?thesis
    by (simp add: tbl eff pres send_attendance_email_def)
qed

theorem attendance_write_independent_of_notification_witness:
  "fst (mark_attendance \<lparr>EMAIL_SENDER = None, EMAIL_APP_PASSWORD = None\<rparr> (Raised ''refused'')
          ''2025-03-01'' ''09:15:00'' ''ahmad mahmoud kraiem'' ''20201001'' empty_attendance)
     = \<lparr>att_rows = [\<lparr>att_id = 1, att_full_name = ''ahmad mahmoud kraiem'', att_reg_no = ''20201001'',
                      att_date = ''2025-03-01'', att_time = ''09:15:00'', att_status = ''Present''\<rparr>],
        att_seq = 1\<rparr>
   \<and> snd (mark_attendance \<lparr>EMAIL_SENDER = None, EMAIL_APP_PASSWORD = None\<rparr> (Raised ''refused'')
          ''2025-03-01'' ''09:15:00'' ''ahmad mahmoud kraiem'' ''20201001'' empty_attendance)
     = [Toast ''Attendance marked for ahmad mahmoud kraiem'',
        Warning ''Email not configured. Set EMAIL_SENDER and EMAIL_APP_PASSWORD in .env to enable notifications.'']
   \<and> snd (mark_attendance \<lparr>EMAIL_SENDER = Some ''a@b.c'', EMAIL_APP_PASSWORD = Some ''pw''\<rparr> (Raised ''refused'')
          ''2025-03-01'' ''09:15:00'' ''ahmad mahmoud kraiem'' ''20201001'' empty_attendance)
     = [Toast ''Attendance marked for ahmad mahmoud kraiem'',
        SmtpAttempt ''20201001@ses.yu.edu.jo'',
        Error ''Failed to send email: refused'']"
proof -
  have h: "select_name_date ''ahmad mahmoud kraiem'' ''2025-03-01'' empty_attendance = None"
    by (simp add: select_name_date_def empty_attendance_def)
  from attendance_write_independent_of_notification[OF h,
      of "\<lparr>EMAIL_SENDER = None, EMAIL_APP_PASSWORD = None\<rparr>" "Raised ''refused''" "''09:15:00''" "''20201001''"]
    attendance_write_independent_of_notification[OF h,
      of "\<lparr>EMAIL_SENDER = Some ''a@b.c'', EMAIL_APP_PASSWORD = Some ''pw''\<rparr>" "Raised ''refused''" "''09:15:00''" "''20201001''" _ _ "''refused''"]
  show ?thesis
    by (simp add: insert_attendance_def empty_attendance_def truthy_def)
qed

text \<open>
  C9, as amended. For a name of exactly three parts that holds no underscore and a
  non-empty registration number that holds no underscore, decoding the identifier that
  \<open>normalize_folder_name\<close> builds, the way the loader does, gives back the normalised
  name (\<open>strip().lower()\<close>) and the registration number as the identifier holds it
  (\<open>strip().lower()\<close>).
\<close>

theorem decode_normalize_roundtrip:
  assumes "name_valid name" and "CHR ''_'' \<notin> set name"
    and "py_strip reg_no \<noteq> []" and "CHR ''_'' \<notin> set reg_no"
  shows "decode_identifier (normalize_folder_name name reg_no)
           = Inr (py_lower (py_strip name), py_lower (py_strip reg_no))"
proof -
  let ?n = "py_lower (py_strip name)"
  let ?r = "py_lower (py_strip reg_no)"
  have r: "CHR ''_'' \<notin> set ?r"
    using assms(4) set_py_strip[of reg_no] by (auto simp: underscore_py_lower)
  have n: "CHR ''_'' \<notin> set ?n"
    using assms(2) set_py_strip[of name] by (auto simp: underscore_py_lower)
  have parts: "py_rsplit1 (CHR ''_'') (normalize_folder_name name reg_no)
                 = [py_replace_char (CHR '' '') (CHR ''_'') ?n, ?r]"
    using r by (simp add: normalize_folder_name_def Let_def rsplit_last)
  have undo: "py_replace_char (CHR ''_'') (CHR '' '') (py_replace_char (CHR '' '') (CHR ''_'') ?n) = ?n"
    using n by (rule replace_undone)
  show ?thesis
    by (simp add: decode_identifier_def parts undo normal_name_fix)
qed

theorem decode_normalize_roundtrip_witness:
  "decode_identifier (normalize_folder_name ''Ahmad Mahmoud Kraiem'' ''20201001'')
     = Inr (''ahmad mahmoud kraiem'', ''20201001'')"
proof -
  have 1: "name_valid ''Ahmad Mahmoud Kraiem''" by code_simp
  have 2: "CHR ''_'' \<notin> set ''Ahmad Mahmoud Kraiem''" by simp
  have 3: "py_strip ''20201001'' \<noteq> []" by code_simp
  have 4: "CHR ''_'' \<notin> set ''20201001''" by simp
  have 5: "py_lower (py_strip ''Ahmad Mahmoud Kraiem'') = ''ahmad mahmoud kraiem''" by code_simp
  have 6: "py_lower (py_strip ''20201001'') = ''20201001''" by code_simp
  from decode_normalize_roundtrip[OF 1 2 3 4] show ?thesis
    by (simp only: 5 6)
qed

text \<open>
  C9 as stated fails for a name with an underscore inside a part: the name has three
  parts and the registration number has no underscore, but the decoded name has a space
  where the name has the underscore.
\<close>

theorem decode_normalize_roundtrip_counterexample:
  "name_valid ''Abd_Allah Omar Saleh'' \<and> CHR ''_'' \<notin> set ''20201002'' \<and> ''20201002'' \<noteq> []
   \<and> py_lower (py_strip ''Abd_Allah Omar Saleh'') = ''abd_allah omar saleh''
   \<and> decode_identifier (normalize_folder_name ''Abd_Allah Omar Saleh'' ''20201002'')
       = Inr (''abd allah omar saleh'', ''20201002'')
   \<and> decode_identifier (normalize_folder_name ''Abd_Allah Omar Saleh'' ''20201002'')
       \<noteq> Inr (py_lower (py_strip ''Abd_Allah Omar Saleh''), py_lower (py_strip ''20201002''))"
  by code_simp

text \<open>
  C10. When the table holds any record for the name and today's date, whatever its status,
  \<open>mark_attendance\<close> returns the table as it was and produces no effect at all: no insert,
  no change of status, no message and no attempt on the mail relay.
\<close>

theorem mark_attendance_existing_record:
  assumes "r \<in> set (att_rows t)" and "att_full_name r = full_name" and "att_date r = today"
  shows "mark_attendance cfg smtp today now full_name reg_no t = (t, [])"
proof -
  from assms have "select_name_date full_name today t \<noteq> None"
    by (auto simp: select_name_date_None)
  then obtain r' where "select_name_date full_name today t = Some r'"
    by blast
  then show ?thesis
    by (simp add: mark_attendance_def)
qed

theorem mark_attendance_existing_record_witness:
  "mark_attendance \<lparr>EMAIL_SENDER = Some ''a@b.c'', EMAIL_APP_PASSWORD = Some ''pw''\<rparr> Delivered
     ''2025-03-01'' ''09:15:00'' ''ahmad mahmoud kraiem'' ''20201001''
     \<lparr>att_rows = [\<lparr>att_id = 1, att_full_name = ''ahmad mahmoud kraiem'', att_reg_no = ''20201001'',
                    att_date = ''2025-03-01'', att_time = ''-'', att_status = ''Absent''\<rparr>],
      att_seq = 1\<rparr>
   = (\<lparr>att_rows = [\<lparr>att_id = 1, att_full_name = ''ahmad mahmoud kraiem'', att_reg_no = ''20201001'',
                     att_date = ''2025-03-01'', att_time = ''-'', att_status = ''Absent''\<rparr>],
       att_seq = 1\<rparr>, [])"
  by (rule mark_attendance_existing_record
        [of "\<lparr>att_id = 1, att_full_name = ''ahmad mahmoud kraiem'', att_reg_no = ''20201001'',
              att_date = ''2025-03-01'', att_time = ''-'', att_status = ''Absent''\<rparr>"])
     simp_all

end
